theory Spec2Isabelle
  imports Main "HOL-Library.Sublist"
begin

section \<open>JavaScript string primitives used by the analysis service\<close>

text \<open>
  Strings are lists of characters, read as the code units U+0000 to U+00FF of a
  JavaScript string. \<open>toLowerCase\<close> maps the upper-case letters of that range, A to Z and
  U+00C0 to U+00DE without the multiplication sign U+00D7, to their lower-case forms
  32 places up. \<open>toUpperCase\<close> maps a to z and U+00E0 to U+00FE without the division sign
  U+00F7 32 places down and the sharp s U+00DF to \<open>SS\<close>; the micro sign U+00B5 and
  U+00FF, whose upper-case forms lie outside the range, are left as they are (the
  service upper-cases only a segment of a URL path).
\<close>

definition upperLatin1 :: string where
  "upperLatin1 =
     ''ABCDEFGHIJKLMNOPQRSTUVWXYZ''
     @ [CHR 0xC0, CHR 0xC1, CHR 0xC2, CHR 0xC3, CHR 0xC4, CHR 0xC5, CHR 0xC6, CHR 0xC7,
                CHR 0xC8, CHR 0xC9, CHR 0xCA, CHR 0xCB, CHR 0xCC, CHR 0xCD, CHR 0xCE, CHR 0xCF,
                CHR 0xD0, CHR 0xD1, CHR 0xD2, CHR 0xD3, CHR 0xD4, CHR 0xD5, CHR 0xD6, CHR 0xD8,
                CHR 0xD9, CHR 0xDA, CHR 0xDB, CHR 0xDC, CHR 0xDD, CHR 0xDE]"

definition lowerLatin1 :: string where
  "lowerLatin1 =
     ''abcdefghijklmnopqrstuvwxyz''
     @ [CHR 0xE0, CHR 0xE1, CHR 0xE2, CHR 0xE3, CHR 0xE4, CHR 0xE5, CHR 0xE6, CHR 0xE7,
                CHR 0xE8, CHR 0xE9, CHR 0xEA, CHR 0xEB, CHR 0xEC, CHR 0xED, CHR 0xEE, CHR 0xEF,
                CHR 0xF0, CHR 0xF1, CHR 0xF2, CHR 0xF3, CHR 0xF4, CHR 0xF5, CHR 0xF6, CHR 0xF8,
                CHR 0xF9, CHR 0xFA, CHR 0xFB, CHR 0xFC, CHR 0xFD, CHR 0xFE]"

definition toLowerChar :: "char \<Rightarrow> char" where
  "toLowerChar c = (case map_of (zip upperLatin1 lowerLatin1) c of Some l \<Rightarrow> l | None \<Rightarrow> c)"

definition toUpperChar :: "char \<Rightarrow> char" where
  "toUpperChar c = (case map_of (zip lowerLatin1 upperLatin1) c of Some u \<Rightarrow> u | None \<Rightarrow> c)"

definition toLowerCase :: "string \<Rightarrow> string" where
  "toLowerCase s = map toLowerChar s"

definition toUpperCase :: "string \<Rightarrow> string" where
  "toUpperCase s = concat (map (\<lambda>c. if c = CHR 0xDF then ''SS'' else [toUpperChar c]) s)"

definition startsWith :: "string \<Rightarrow> string \<Rightarrow> bool" where
  \<comment> \<open>\<open>s.startsWith(p)\<close>\<close>
  "startsWith s p = (take (length p) s = p)"

fun includes_str :: "string \<Rightarrow> string \<Rightarrow> bool" where
  \<comment> \<open>\<open>s.includes(p)\<close>: \<open>p\<close> occurs in \<open>s\<close> at some position\<close>
  "includes_str [] p = (p = [])"
| "includes_str (c # cs) p = (startsWith (c # cs) p \<or> includes_str cs p)"

definition isDigit :: "char \<Rightarrow> bool" where
  \<comment> \<open>the regular expression class \<open>\d\<close>\<close>
  "isDigit c = (c \<in> set ''0123456789'')"

definition digitValue :: "char \<Rightarrow> nat" where
  "digitValue c = of_char c - 48"

definition Number :: "string \<Rightarrow> nat" where
  \<comment> \<open>\<open>Number(s)\<close> on a string of decimal digits (leading zeros are decimal, not octal)\<close>
  "Number ds = foldl (\<lambda>n c. 10 * n + digitValue c) 0 ds"

section \<open>HostPolicy: \<open>isPrivateIP\<close>\<close>

text \<open>
  The pattern \<open>/^(\d{1,3})\.(\d{1,3})\.(\d{1,3})\.(\d{1,3})$/\<close>. A group is a greedy
  run of one to three digits; what follows a group is a dot or the end of the input,
  neither of which is a digit, so backtracking never finds a second way to match and the
  group is the whole digit run.
\<close>

definition octetGroup :: "string \<Rightarrow> (string \<times> string) option" where
  "octetGroup s =
     (let ds = takeWhile isDigit s
      in if 1 \<le> length ds \<and> length ds \<le> 3 then Some (ds, dropWhile isDigit s) else None)"

definition dotThenGroup :: "string \<Rightarrow> (string \<times> string) option" where
  "dotThenGroup s = (case s of [] \<Rightarrow> None | c # r \<Rightarrow> if c = CHR ''.'' then octetGroup r else None)"

definition ipv4Match :: "string \<Rightarrow> (string \<times> string \<times> string \<times> string) option" where
  "ipv4Match ip =
     (case octetGroup ip of
        None \<Rightarrow> None
      | Some (a, r1) \<Rightarrow>
          (case dotThenGroup r1 of
             None \<Rightarrow> None
           | Some (b, r2) \<Rightarrow>
               (case dotThenGroup r2 of
                  None \<Rightarrow> None
                | Some (c, r3) \<Rightarrow>
                    (case dotThenGroup r3 of
                       None \<Rightarrow> None
                     | Some (d, r4) \<Rightarrow> if r4 = [] then Some (a, b, c, d) else None))))"

definition privateRange :: "nat \<Rightarrow> nat \<Rightarrow> nat \<Rightarrow> nat \<Rightarrow> bool" where
  \<comment> \<open>the "Check private ranges" condition, in the source's order\<close>
  "privateRange a b c d =
     (a = 0 \<or> a = 10 \<or> a = 127 \<or> (a = 172 \<and> b \<ge> 16 \<and> b \<le> 31) \<or> (a = 192 \<and> b = 168)
      \<or> (a = 169 \<and> b = 254) \<or> (a = 192 \<and> b = 0 \<and> c = 2) \<or> (a = 198 \<and> b = 51 \<and> c = 100)
      \<or> (a = 203 \<and> b = 0 \<and> c = 113) \<or> a \<ge> 224)"

definition ipv6Special :: "string \<Rightarrow> bool" where
  \<comment> \<open>the "IPv6 private/special ranges" condition on the lower-cased input\<close>
  "ipv6Special ipLower =
     (ipLower = ''::1'' \<or> startsWith ipLower ''::ffff:'' \<or> startsWith ipLower ''fe80:''
      \<or> startsWith ipLower ''fc'' \<or> startsWith ipLower ''fd'' \<or> startsWith ipLower ''ff''
      \<or> ipLower = ''::'')"

definition isPrivateIP :: "string \<Rightarrow> bool" where
  "isPrivateIP ip =
     (let v4 =
        (case ipv4Match ip of
           None \<Rightarrow> False
         | Some (sa, sb, sc, sd) \<Rightarrow>
             (let a = Number sa; b = Number sb; c = Number sc; d = Number sd
              in if a > 255 \<or> b > 255 \<or> c > 255 \<or> d > 255 then True
                 else privateRange a b c d))
      in if v4 then True else ipv6Special (toLowerCase ip))"

subsection \<open>The blocked ranges as the specification lists them\<close>

definition addr32 :: "nat \<Rightarrow> nat \<Rightarrow> nat \<Rightarrow> nat \<Rightarrow> nat" where
  \<comment> \<open>the 32-bit value of the address \<open>a.b.c.d\<close>\<close>
  "addr32 a b c d = a * 2 ^ 24 + b * 2 ^ 16 + c * 2 ^ 8 + d"

definition inCidr :: "nat \<Rightarrow> nat \<Rightarrow> nat \<Rightarrow> bool" where
  \<comment> \<open>\<open>inCidr x base len\<close>: \<open>x\<close> agrees with \<open>base\<close> on the leading \<open>len\<close> bits\<close>
  "inCidr x base len = (x div 2 ^ (32 - len) = base div 2 ^ (32 - len))"

definition specBlockedV4 :: "nat \<Rightarrow> bool" where
  \<comment> \<open>the specification's list: 0.0.0.0/8, 10.0.0.0/8, 127.0.0.0/8, 172.16.0.0/12,
      192.168.0.0/16, 169.254.0.0/16, 192.0.2.0/24, 198.51.100.0/24, 203.0.113.0/24 and
      everything from 224.0.0.0 upwards\<close>
  "specBlockedV4 x =
     (inCidr x (addr32 0 0 0 0) 8 \<or> inCidr x (addr32 10 0 0 0) 8 \<or> inCidr x (addr32 127 0 0 0) 8
      \<or> inCidr x (addr32 172 16 0 0) 12 \<or> inCidr x (addr32 192 168 0 0) 16
      \<or> inCidr x (addr32 169 254 0 0) 16 \<or> inCidr x (addr32 192 0 2 0) 24
      \<or> inCidr x (addr32 198 51 100 0) 24 \<or> inCidr x (addr32 203 0 113 0) 24
      \<or> x \<ge> addr32 224 0 0 0)"

definition octet :: "string \<Rightarrow> bool" where
  \<comment> \<open>one to three decimal digits: what a group of the pattern can capture\<close>
  "octet s = (1 \<le> length s \<and> length s \<le> 3 \<and> (\<forall>c \<in> set s. isDigit c))"

definition dottedQuad :: "string \<Rightarrow> string \<Rightarrow> string \<Rightarrow> string \<Rightarrow> string" where
  "dottedQuad sa sb sc sd = sa @ ''.'' @ sb @ ''.'' @ sc @ ''.'' @ sd"

section \<open>Errors, URLs and the outside world\<close>

datatype jsError = JsError (errName: string) (message: string)

definition newError :: "string \<Rightarrow> jsError" where
  \<comment> \<open>\<open>new Error(msg)\<close>\<close>
  "newError msg = JsError ''Error'' msg"

record URL =
  href :: string
  protocol :: string
  hostname :: string
  origin :: string
  pathname :: string

type_synonym bytes = "char list"

datatype readEvent = Chunk bytes | ReadFails jsError

record response =
  status :: nat
  contentType :: "string option"
  contentLength :: "string option"
  body :: "readEvent list option"

datatype redirectMode = Follow | Manual

text \<open>
  Everything the service reaches outside its own code is a field of the world:
  \<^item> \<open>newURL s\<close> is the platform's \<open>new URL(s)\<close>, \<open>None\<close> when the constructor throws;
    \<open>newURLwithBase h b\<close> is \<open>new URL(h, b)\<close>;
  \<^item> \<open>resolve4\<close> and \<open>resolve6\<close> are \<open>dns.resolve4\<close> and \<open>dns.resolve6\<close>, \<open>None\<close> when
    the promise rejects;
  \<^item> \<open>fetch mode u\<close> is the platform's \<open>fetch(u, {redirect: mode, ...})\<close>: the response the
    caller gets under that redirect mode, or the error the promise rejects with (an
    \<open>AbortError\<close> when the timer fires first); the body of a response is the sequence of
    results of \<open>reader.read()\<close>, the end of the list being \<open>done\<close>;
  \<^item> \<open>decode\<close> is UTF-8 decoding; \<open>extractText\<close> is the cheerio-based extraction of
    \<open>scrapeWebsite\<close> from the decoded HTML to the cleaned text; \<open>anchorHrefs\<close> is the list of
    \<open>href\<close> attributes of \<open>$('a[href]')\<close> in document order;
  \<^item> \<open>analyzeWithOpenAI\<close> and \<open>mergeAnalysisData\<close> are the two model calls, as functions of
    their text arguments; \<open>jsonStringify\<close> is \<open>JSON.stringify\<close> on the profile type \<open>'j\<close>,
    and \<open>jsonParse\<close> is \<open>JSON.parse\<close>, \<open>None\<close> when it throws or yields a value that counts
    as false (the service treats the two alike);
  \<^item> \<open>now\<close> is the clock read by the storage layer.
\<close>

record 'j world =
  newURL :: "string \<Rightarrow> URL option"
  newURLwithBase :: "string \<Rightarrow> string \<Rightarrow> URL option"
  resolve4 :: "string \<Rightarrow> string list option"
  resolve6 :: "string \<Rightarrow> string list option"
  fetch :: "redirectMode \<Rightarrow> string \<Rightarrow> jsError + response"
  decode :: "bytes \<Rightarrow> string"
  extractText :: "string \<Rightarrow> string"
  anchorHrefs :: "string \<Rightarrow> string list"
  analyzeWithOpenAI :: "string \<Rightarrow> jsError + 'j"
  mergeAnalysisData :: "'j \<Rightarrow> string \<Rightarrow> jsError + 'j"
  jsonStringify :: "'j \<Rightarrow> string"
  jsonParse :: "string \<Rightarrow> 'j option"
  now :: nat

section \<open>UrlGuard: \<open>validateUrl\<close>\<close>

definition ensureProtocol :: "string \<Rightarrow> string" where
  "ensureProtocol url =
     (if \<not> startsWith url ''http://'' \<and> \<not> startsWith url ''https://''
      then ''https://'' @ url else url)"

definition stripBrackets :: "string \<Rightarrow> string" where
  \<comment> \<open>\<open>hostname.replace(/^\[|\]$/g, '')\<close>\<close>
  "stripBrackets h =
     (let h1 = (case h of [] \<Rightarrow> [] | c # r \<Rightarrow> if c = CHR ''['' then r else h)
      in if h1 \<noteq> [] \<and> last h1 = CHR '']'' then butlast h1 else h1)"

fun checkResolved :: "string list \<Rightarrow> jsError + unit" where
  \<comment> \<open>the loop over \<open>allAddresses\<close>\<close>
  "checkResolved [] = Inr ()"
| "checkResolved (addr # rest) =
     (if isPrivateIP addr then Inl (newError ''Domain resolves to a private IP address'')
      else checkResolved rest)"

definition resolveAll :: "'j world \<Rightarrow> string \<Rightarrow> string list" where
  \<comment> \<open>\<open>[...addresses, ...addresses6]\<close>, a rejected lookup counting as no address\<close>
  "resolveAll W h =
     (case resolve4 W h of None \<Rightarrow> [] | Some as \<Rightarrow> as)
     @ (case resolve6 W h of None \<Rightarrow> [] | Some as \<Rightarrow> as)"

definition dnsCheck :: "'j world \<Rightarrow> string \<Rightarrow> jsError + unit" where
  \<comment> \<open>the \<open>try\<close> block around the DNS lookups with its \<open>catch\<close>\<close>
  "dnsCheck W h =
     (let allAddresses = resolveAll W h;
          attempt = (if allAddresses = [] then Inl (newError ''Unable to resolve hostname'')
                     else checkResolved allAddresses)
      in case attempt of
           Inr u \<Rightarrow> Inr u
         | Inl error \<Rightarrow>
             if includes_str (message error) ''not allowed''
                \<or> includes_str (message error) ''private IP''
                \<or> includes_str (message error) ''Unable to resolve''
             then Inl error
             else Inl (newError ''Unable to resolve hostname. Please check the URL.''))"

definition validateUrl :: "'j world \<Rightarrow> string \<Rightarrow> jsError + URL" where
  "validateUrl W url0 =
     (let url = ensureProtocol url0
      in case newURL W url of
           None \<Rightarrow> Inl (newError ''Invalid URL format'')
         | Some parsedUrl \<Rightarrow>
             if protocol parsedUrl \<noteq> ''http:'' \<and> protocol parsedUrl \<noteq> ''https:''
             then Inl (newError ''Only HTTP and HTTPS protocols are allowed'')
             else
               let h = toLowerCase (hostname parsedUrl)
               in if h = ''localhost'' then Inl (newError ''Access to localhost is not allowed'')
                  else if includes_str h ''metadata''
                  then Inl (newError ''Access to metadata endpoints is not allowed'')
                  else if (isPrivateIP h \<or> includes_str h '':'') \<and> isPrivateIP (stripBrackets h)
                  then Inl (newError ''Access to private IP addresses is not allowed'')
                  else (case dnsCheck W h of
                          Inl e \<Rightarrow> Inl e
                        | Inr _ \<Rightarrow> Inr parsedUrl))"

subsection \<open>A sample world for the URL guard\<close>

definition mkURL :: "string \<Rightarrow> string \<Rightarrow> string \<Rightarrow> string \<Rightarrow> string \<Rightarrow> URL" where
  "mkURL h pr hn orig pn = \<lparr>href = h, protocol = pr, hostname = hn, origin = orig, pathname = pn\<rparr>"

definition quietWorld :: "string world" where
  \<comment> \<open>nothing parses, nothing resolves, every request fails, the model calls fail\<close>
  "quietWorld =
     \<lparr>newURL = (\<lambda>_. None), newURLwithBase = (\<lambda>_ _. None),
      resolve4 = (\<lambda>_. None), resolve6 = (\<lambda>_. None),
      fetch = (\<lambda>_ _. Inl (JsError ''TypeError'' ''fetch failed'')),
      decode = (\<lambda>b. b), extractText = (\<lambda>t. t), anchorHrefs = (\<lambda>_. []),
      analyzeWithOpenAI = (\<lambda>_. Inl (newError ''OpenAI returned empty response'')),
      mergeAnalysisData = (\<lambda>_ _. Inl (newError ''OpenAI returned empty response'')),
      jsonStringify = (\<lambda>j. j), jsonParse = (\<lambda>s. Some s), now = 0\<rparr>"

definition guardURLs :: "(string \<times> URL) list" where
  \<comment> \<open>what the platform's URL constructor returns on the strings of the examples;
      it throws on \<open>https://not a url\<close> (a space is not allowed in a host), which is
      therefore absent\<close>
  "guardURLs =
     [(''http://localhost/x'',
         mkURL ''http://localhost/x'' ''http:'' ''localhost'' ''http://localhost'' ''/x''),
      (''https://ftp://example.com'',
         mkURL ''https://ftp//example.com'' ''https:'' ''ftp'' ''https://ftp'' ''//example.com''),
      (''https://ffmpeg.org'',
         mkURL ''https://ffmpeg.org/'' ''https:'' ''ffmpeg.org'' ''https://ffmpeg.org'' ''/''),
      (''https://rebind.example'',
         mkURL ''https://rebind.example/'' ''https:'' ''rebind.example''
           ''https://rebind.example'' ''/''),
      (''https://mixed.example'',
         mkURL ''https://mixed.example/'' ''https:'' ''mixed.example''
           ''https://mixed.example'' ''/'')]"

definition guardWorld :: "string world" where
  \<comment> \<open>\<open>rebind.example\<close> resolves only to the loopback address; \<open>mixed.example\<close> to a
      public address first and private ones after it, its AAAA lookup failing; \<open>ffmpeg.org\<close>
      is given a loopback record; the host \<open>ftp\<close> has no records\<close>
  "guardWorld =
     quietWorld
       \<lparr>newURL := map_of guardURLs,
        resolve4 := map_of [(''rebind.example'', [''127.0.0.1'']),
                            (''mixed.example'', [''93.184.216.34'', ''10.0.0.5'']),
                            (''ffmpeg.org'', [''127.0.0.1'']),
                            (''ftp'', [])],
        resolve6 := map_of [(''rebind.example'', []), (''ffmpeg.org'', []), (''ftp'', [])]\<rparr>"

section \<open>BoundedFetcher: \<open>scrapeWebsite\<close> and \<open>fetchPageHtml\<close>\<close>

definition isStrWhiteSpace :: "char \<Rightarrow> bool" where
  \<comment> \<open>the white space \<open>parseInt\<close> skips and \<open>trim\<close> removes (tab, line feed, vertical tab,
      form feed, carriage return, space, no-break space)\<close>
  "isStrWhiteSpace c = (c \<in> set [CHR 0x09, CHR 0x0A, CHR 0x0B, CHR 0x0C, CHR 0x0D, CHR 0x20, CHR 0xA0])"

definition hexDigitValue :: "char \<Rightarrow> nat option" where
  "hexDigitValue c =
     map_of (zip ''0123456789abcdefABCDEF''
               [0, 1, 2, 3, 4, 5, 6, 7, 8, 9, 10, 11, 12, 13, 14, 15, 10, 11, 12, 13, 14, 15]) c"

definition radixValue :: "nat \<Rightarrow> string \<Rightarrow> nat" where
  "radixValue r ds = foldl (\<lambda>n c. r * n + the (hexDigitValue c)) 0 ds"

definition parseInt :: "string \<Rightarrow> int option" where
  \<comment> \<open>\<open>parseInt(s)\<close> without a radix argument; \<open>None\<close> is \<open>NaN\<close>\<close>
  "parseInt s =
     (let s1 = dropWhile isStrWhiteSpace s;
          (sign, s2) = (case s1 of
                          [] \<Rightarrow> (1, s1)
                        | c # r \<Rightarrow> if c = CHR ''-'' then (- 1, r)
                                   else if c = CHR ''+'' then (1, r) else (1, s1));
          (radix, s3) = (if startsWith s2 ''0x'' \<or> startsWith s2 ''0X'' then (16, drop 2 s2)
                         else (10, s2));
          ds = takeWhile (\<lambda>c. case hexDigitValue c of None \<Rightarrow> False | Some v \<Rightarrow> v < radix) s3
      in if ds = [] then None else Some (sign * int (radixValue radix ds)))"

definition exceeds :: "string option \<Rightarrow> nat \<Rightarrow> bool" where
  \<comment> \<open>\<open>contentLength && parseInt(contentLength) > limit\<close>\<close>
  "exceeds contentLengthHeader limit =
     (case contentLengthHeader of
        None \<Rightarrow> False
      | Some v \<Rightarrow> v \<noteq> [] \<and> (case parseInt v of None \<Rightarrow> False | Some n \<Rightarrow> n > int limit))"

definition MAX_SIZE :: nat where
  "MAX_SIZE = 5 * 1024 * 1024"

function showNat :: "nat \<Rightarrow> string" where
  \<comment> \<open>a number inside a template string\<close>
  "showNat n =
     (if n < 10 then [''0123456789'' ! n]
      else showNat (n div 10) @ [''0123456789'' ! (n mod 10)])"
  by pat_completeness auto
termination
  by (relation "measure (\<lambda>n. n)") auto

declare showNat.simps [simp del]

fun readLoop :: "readEvent list \<Rightarrow> bytes list \<Rightarrow> nat \<Rightarrow> jsError + (bytes list \<times> nat)" where
  \<comment> \<open>the \<open>while (true)\<close> loop over \<open>reader.read()\<close>, with \<open>chunks\<close> and \<open>totalSize\<close>\<close>
  "readLoop [] chunks totalSize = Inr (chunks, totalSize)"
| "readLoop (ReadFails e # rest) chunks totalSize = Inl e"
| "readLoop (Chunk v # rest) chunks totalSize =
     (let totalSize' = totalSize + length v
      in if totalSize' > MAX_SIZE
         then Inl (newError ''Website content exceeded size limit during download'')
         else readLoop rest (chunks @ [v]) totalSize')"

definition ok :: "response \<Rightarrow> bool" where
  \<comment> \<open>\<open>response.ok\<close>\<close>
  "ok r = (200 \<le> status r \<and> status r \<le> 299)"

definition scrapeAttempt :: "'j world \<Rightarrow> URL \<Rightarrow> jsError + string" where
  \<comment> \<open>the body of the \<open>try\<close> block of \<open>scrapeWebsite\<close>\<close>
  "scrapeAttempt W validatedUrl =
     (case fetch W Manual (href validatedUrl) of
        Inl e \<Rightarrow> Inl e
      | Inr response \<Rightarrow>
          if status response \<ge> 300 \<and> status response < 400
          then Inl (newError ''Website redirects are not supported. Please provide the final URL.'')
          else if \<not> ok response
          then Inl (newError (''Failed to fetch website: HTTP '' @ showNat (status response)))
          else if (case contentType response of
                     None \<Rightarrow> True
                   | Some ct \<Rightarrow> ct = [] \<or> \<not> includes_str ct ''text/html'')
          then Inl (newError ''Website did not return HTML content'')
          else if exceeds (contentLength response) MAX_SIZE
          then Inl (newError ''Website content is too large'')
          else (case body response of
                  None \<Rightarrow> Inl (newError ''Response body is not available'')
                | Some events \<Rightarrow>
                    (case readLoop events [] 0 of
                       Inl e \<Rightarrow> Inl e
                     | Inr (chunks, totalSize) \<Rightarrow>
                         Inr (extractText W (decode W (concat chunks))))))"

definition scrapeWebsite :: "'j world \<Rightarrow> string \<Rightarrow> jsError + string" where
  "scrapeWebsite W url =
     (case validateUrl W url of
        Inl e \<Rightarrow> Inl e
      | Inr validatedUrl \<Rightarrow>
          (case scrapeAttempt W validatedUrl of
             Inr cleanedContent \<Rightarrow> Inr cleanedContent
           | Inl error \<Rightarrow>
               if errName error = ''AbortError'' then Inl (newError ''Website request timed out'')
               else if includes_str (message error) ''not allowed''
                       \<or> includes_str (message error) ''Invalid URL''
               then Inl error
               else Inl (newError
                           ''Unable to access the website. Please check the URL and try again.'')))"

fun readText :: "readEvent list \<Rightarrow> bytes \<Rightarrow> jsError + bytes" where
  \<comment> \<open>\<open>response.text()\<close>: the whole body is read, whatever its size\<close>
  "readText [] acc = Inr acc"
| "readText (ReadFails e # rest) acc = Inl e"
| "readText (Chunk v # rest) acc = readText rest (acc @ v)"

definition fetchPageHtml :: "'j world \<Rightarrow> string \<Rightarrow> jsError + string" where
  "fetchPageHtml W url =
     (case validateUrl W url of
        Inl e \<Rightarrow> Inl e
      | Inr validatedUrl \<Rightarrow>
          (case fetch W Manual (href validatedUrl) of
             Inl e \<Rightarrow> Inl e
           | Inr response \<Rightarrow>
               if status response \<ge> 300 \<and> status response < 400
               then Inl (newError ''Redirects not supported'')
               else if \<not> ok response
               then Inl (newError (''HTTP '' @ showNat (status response)))
               else if exceeds (contentLength response) (5 * 1024 * 1024)
               then Inl (newError ''Content too large'')
               else (case readText (case body response of None \<Rightarrow> [] | Some events \<Rightarrow> events) [] of
                       Inl e \<Rightarrow> Inl e
                     | Inr raw \<Rightarrow> Inr (take 500000 (decode W raw)))))"

section \<open>PageDiscovery: \<open>findImportantPages\<close>\<close>

definition pageKeywords :: "string list" where
  "pageKeywords =
     [''about'', ''about-us'', ''who-we-are'', ''our-story'', ''company'',
      ''contact'', ''contact-us'', ''get-in-touch'', ''reach-us'',
      ''faq'', ''faqs'', ''help'', ''support'',
      ''services'', ''what-we-do'',
      ''products'', ''shop'', ''store'']"

definition setAdd :: "'a list \<Rightarrow> 'a \<Rightarrow> 'a list" where
  \<comment> \<open>\<open>Set.prototype.add\<close> on a set kept in insertion order\<close>
  "setAdd xs x = (if x \<in> set xs then xs else xs @ [x])"

definition arrayFromSet :: "'a list \<Rightarrow> 'a list" where
  \<comment> \<open>\<open>Array.from(new Set(xs))\<close>: the first occurrence of each element, in order\<close>
  "arrayFromSet xs = foldl setAdd [] xs"

definition hasKeyword :: "string \<Rightarrow> bool" where
  \<comment> \<open>\<open>pageKeywords.some(keyword => path.includes(keyword))\<close>\<close>
  "hasKeyword path = list_ex (\<lambda>keyword. includes_str path keyword) pageKeywords"

definition considerLink :: "'j world \<Rightarrow> string \<Rightarrow> string \<Rightarrow> string list \<Rightarrow> string \<Rightarrow> string list" where
  \<comment> \<open>one call of the \<open>each\<close> callback: \<open>importantPages\<close> before and after\<close>
  "considerLink W baseUrl baseOrigin importantPages h =
     (if h = [] then importantPages
      else case newURLwithBase W h baseUrl of
             None \<Rightarrow> importantPages
           | Some resolved \<Rightarrow>
               (let absoluteUrl = href resolved
                in case newURL W absoluteUrl of
                     None \<Rightarrow> importantPages
                   | Some parsedUrl \<Rightarrow>
                       if origin parsedUrl \<noteq> baseOrigin then importantPages
                       else if hasKeyword (toLowerCase (pathname parsedUrl))
                               \<and> length importantPages < 10
                       then setAdd importantPages absoluteUrl
                       else importantPages))"

definition findImportantPages :: "'j world \<Rightarrow> string \<Rightarrow> string \<Rightarrow> jsError + string list" where
  "findImportantPages W baseUrl homepageHtml =
     (case newURL W baseUrl of
        None \<Rightarrow> Inl (JsError ''TypeError'' ''Invalid URL'')
      | Some parsedBase \<Rightarrow>
          Inr (take 5 (foldl (considerLink W baseUrl (origin parsedBase)) []
                         (anchorHrefs W homepageHtml))))"

definition goodLink :: "'j world \<Rightarrow> string \<Rightarrow> string \<Rightarrow> bool" where
  \<comment> \<open>what every member of \<open>importantPages\<close> satisfies: it parses, has the base's origin,
      and its lower-cased path contains a keyword\<close>
  "goodLink W baseOrigin u =
     (case newURL W u of
        None \<Rightarrow> False
      | Some p \<Rightarrow> origin p = baseOrigin \<and> hasKeyword (toLowerCase (pathname p)))"

section \<open>Storage\<close>

record analysisRow =
  websiteUrl :: string
  rowStatus :: string
  analyzedContent :: "string option"
  errorMessage :: "string option"
  lastAnalyzedAt :: "nat option"

text \<open>
  The rows of one business account: its row of \<open>website_analysis\<close>, if any, and its rows
  of \<open>analyzed_pages\<close> in insertion order. The storage calls are taken to succeed.
\<close>

record store =
  analysis :: "analysisRow option"
  analyzedPages :: "string list"

record analysisPatch =
  patchUrl :: "string option"
  patchStatus :: "string option"
  patchContent :: "string option"

definition updateWebsiteAnalysisStatus :: "nat \<Rightarrow> string \<Rightarrow> string option \<Rightarrow> store \<Rightarrow> store" where
  \<comment> \<open>an \<open>UPDATE ... WHERE\<close>: no row, no change\<close>
  "updateWebsiteAnalysisStatus clock st msg s =
     (case analysis s of
        None \<Rightarrow> s
      | Some row \<Rightarrow>
          s\<lparr>analysis := Some (row\<lparr>rowStatus := st,
                                   errorMessage := (case msg of
                                                      None \<Rightarrow> None
                                                    | Some m \<Rightarrow> if m = [] then None else Some m),
                                   lastAnalyzedAt := (if st = ''completed'' then Some clock
                                                      else None)\<rparr>)\<rparr>)"

definition upsertWebsiteAnalysis :: "analysisPatch \<Rightarrow> store \<Rightarrow> store" where
  "upsertWebsiteAnalysis p s =
     (case analysis s of
        Some row \<Rightarrow>
          s\<lparr>analysis := Some (row\<lparr>websiteUrl := (case patchUrl p of None \<Rightarrow> websiteUrl row | Some u \<Rightarrow> u),
                                   rowStatus := (case patchStatus p of None \<Rightarrow> rowStatus row | Some t \<Rightarrow> t),
                                   analyzedContent := (case patchContent p of
                                                         None \<Rightarrow> analyzedContent row
                                                       | Some c \<Rightarrow> Some c)\<rparr>)\<rparr>
      | None \<Rightarrow>
          s\<lparr>analysis := Some \<lparr>websiteUrl = (case patchUrl p of None \<Rightarrow> [] | Some u \<Rightarrow> u),
                               rowStatus = (case patchStatus p of None \<Rightarrow> ''pending'' | Some t \<Rightarrow> t),
                               analyzedContent = patchContent p,
                               errorMessage = None,
                               lastAnalyzedAt = None\<rparr>\<rparr>)"

definition createAnalyzedPage :: "store \<Rightarrow> string \<Rightarrow> store" where
  "createAnalyzedPage s pageUrl = s\<lparr>analyzedPages := analyzedPages s @ [pageUrl]\<rparr>"

section \<open>AnalysisOrchestrator: \<open>analyzeWebsite\<close> and \<open>analyzeWebsitePages\<close>\<close>

fun splitOn :: "char \<Rightarrow> string \<Rightarrow> string \<Rightarrow> string list" where
  \<comment> \<open>\<open>s.split(c)\<close>, with the segment read so far\<close>
  "splitOn sep [] cur = [cur]"
| "splitOn sep (c # cs) cur =
     (if c = sep then cur # splitOn sep cs [] else splitOn sep cs (cur @ [c]))"

definition pageNameOf :: "string \<Rightarrow> string" where
  \<comment> \<open>\<open>pathname.split('/').filter(p => p).pop() || 'page'\<close>\<close>
  "pageNameOf path =
     (case rev (filter (\<lambda>p. p \<noteq> []) (splitOn CHR ''/'' path [])) of
        [] \<Rightarrow> ''page''
      | p # _ \<Rightarrow> p)"

definition trim :: "string \<Rightarrow> string" where
  "trim s = rev (dropWhile isStrWhiteSpace (rev (dropWhile isStrWhiteSpace s)))"

definition normalizePage :: "string \<Rightarrow> string" where
  \<comment> \<open>\<open>url.toLowerCase().replace(/\/$/, '')\<close>\<close>
  "normalizePage url =
     (let l = toLowerCase url in if l \<noteq> [] \<and> last l = CHR ''/'' then butlast l else l)"

definition savePages :: "store \<Rightarrow> string list \<Rightarrow> store" where
  \<comment> \<open>step 5: one \<open>createAnalyzedPage\<close> per element of \<open>uniquePages\<close>\<close>
  "savePages s allPages = foldl createAnalyzedPage s (arrayFromSet (map normalizePage allPages))"

definition scrapeAdditional :: "'j world \<Rightarrow> string \<Rightarrow> string \<Rightarrow> string" where
  \<comment> \<open>one round of the loop of \<open>analyzeWebsite\<close> over \<open>additionalPages\<close>; a failure inside
      the \<open>try\<close> leaves \<open>combinedContent\<close> as it was\<close>
  "scrapeAdditional W combinedContent pageUrl =
     (case scrapeWebsite W pageUrl of
        Inl _ \<Rightarrow> combinedContent
      | Inr pageContent \<Rightarrow>
          (case newURL W pageUrl of
             None \<Rightarrow> combinedContent
           | Some u \<Rightarrow>
               combinedContent @ [CHR 0x0A, CHR 0x0A] @ toUpperCase (pageNameOf (pathname u))
                 @ '' PAGE CONTENT:'' @ [CHR 0x0A] @ pageContent @ [CHR 0x0A]))"

definition analyzeWebsiteTry :: "'j world \<Rightarrow> string \<Rightarrow> store \<Rightarrow> jsError + store" where
  \<comment> \<open>the \<open>try\<close> block after the first status update; every \<open>throw\<close> happens before the
      first write, so a failure carries no store\<close>
  "analyzeWebsiteTry W url s =
     (case scrapeWebsite W url of
        Inl e \<Rightarrow> Inl e
      | Inr homepageContent \<Rightarrow>
          (case fetchPageHtml W url of
             Inl e \<Rightarrow> Inl e
           | Inr homepageHtml \<Rightarrow>
               (case findImportantPages W url homepageHtml of
                  Inl e \<Rightarrow> Inl e
                | Inr additionalPages \<Rightarrow>
                    (let combinedContent =
                           foldl (scrapeAdditional W)
                             (''HOMEPAGE CONTENT:'' @ [CHR 0x0A] @ homepageContent @ [CHR 0x0A, CHR 0x0A])
                             additionalPages
                     in case analyzeWithOpenAI W combinedContent of
                          Inl e \<Rightarrow> Inl e
                        | Inr analyzed \<Rightarrow>
                            (let s1 = upsertWebsiteAnalysis
                                        \<lparr>patchUrl = Some url, patchStatus = Some ''completed'',
                                         patchContent = Some (jsonStringify W analyzed)\<rparr> s;
                                 s2 = savePages s1 (url # additionalPages)
                             in Inr (updateWebsiteAnalysisStatus (now W) ''completed'' None s2))))))"

definition analyzeWebsite :: "'j world \<Rightarrow> string \<Rightarrow> store \<Rightarrow> (jsError + unit) \<times> store" where
  \<comment> \<open>the promise's outcome and the store when it settles\<close>
  "analyzeWebsite W url s0 =
     (let s = updateWebsiteAnalysisStatus (now W) ''analyzing'' None s0
      in case analyzeWebsiteTry W url s of
           Inr s' \<Rightarrow> (Inr (), s')
         | Inl error \<Rightarrow>
             (Inl error, updateWebsiteAnalysisStatus (now W) ''failed'' (Some (message error)) s))"

definition scrapeListed :: "'j world \<Rightarrow> string \<Rightarrow> string \<Rightarrow> string" where
  \<comment> \<open>one round of the loop of \<open>analyzeWebsitePages\<close> over \<open>pageUrls\<close>\<close>
  "scrapeListed W combinedContent pageUrl =
     (case scrapeWebsite W pageUrl of
        Inl _ \<Rightarrow> combinedContent
      | Inr pageContent \<Rightarrow>
          (case newURL W pageUrl of
             None \<Rightarrow> combinedContent
           | Some u \<Rightarrow>
               combinedContent @ toUpperCase (pageNameOf (pathname u)) @ '' PAGE ('' @ pageUrl
                 @ ''):'' @ [CHR 0x0A] @ pageContent @ [CHR 0x0A, CHR 0x0A]))"

definition existingData :: "'j world \<Rightarrow> bool \<Rightarrow> store \<Rightarrow> 'j option" where
  \<comment> \<open>step 2: the stored profile, in append mode, when there is one and it parses\<close>
  "existingData W appendMode s =
     (if appendMode
      then (case analysis s of
              None \<Rightarrow> None
            | Some row \<Rightarrow>
                (case analyzedContent row of
                   None \<Rightarrow> None
                 | Some c \<Rightarrow> if c = [] then None else jsonParse W c))
      else None)"

definition analyzeWebsitePagesTry :: "'j world \<Rightarrow> string list \<Rightarrow> bool \<Rightarrow> store \<Rightarrow> jsError + store" where
  "analyzeWebsitePagesTry W pageUrls appendMode s =
     (let combinedContent = foldl (scrapeListed W) [] pageUrls
      in if trim combinedContent = [] then Inl (newError ''Failed to scrape any pages'')
         else
           case (case existingData W appendMode s of
                   Some existing \<Rightarrow> mergeAnalysisData W existing combinedContent
                 | None \<Rightarrow> analyzeWithOpenAI W combinedContent) of
             Inl e \<Rightarrow> Inl e
           | Inr analyzed \<Rightarrow>
               (let s1 = upsertWebsiteAnalysis
                           \<lparr>patchUrl = (case pageUrls of [] \<Rightarrow> None | u # _ \<Rightarrow> Some u),
                            patchStatus = Some ''completed'',
                            patchContent = Some (jsonStringify W analyzed)\<rparr> s;
                    s2 = savePages s1 pageUrls
                in Inr (updateWebsiteAnalysisStatus (now W) ''completed'' None s2)))"

definition analyzeWebsitePages :: "'j world \<Rightarrow> string list \<Rightarrow> bool \<Rightarrow> store \<Rightarrow> (jsError + unit) \<times> store" where
  "analyzeWebsitePages W pageUrls appendMode s0 =
     (let s = updateWebsiteAnalysisStatus (now W) ''analyzing'' None s0
      in case analyzeWebsitePagesTry W pageUrls appendMode s of
           Inr s' \<Rightarrow> (Inr (), s')
         | Inl error \<Rightarrow>
             (Inl error, updateWebsiteAnalysisStatus (now W) ''failed'' (Some (message error)) s))"

definition settled :: "jsError + unit \<Rightarrow> store \<Rightarrow> bool" where
  \<comment> \<open>how a run must leave the record: \<open>completed\<close> after success, \<open>failed\<close> with the
      error's message after a failure (an empty message is stored as no message)\<close>
  "settled outcome s =
     (case analysis s of
        None \<Rightarrow> False
      | Some row \<Rightarrow>
          rowStatus row \<noteq> ''analyzing''
          \<and> (case outcome of
                Inr _ \<Rightarrow> rowStatus row = ''completed'' \<and> errorMessage row = None
              | Inl e \<Rightarrow> rowStatus row = ''failed''
                         \<and> errorMessage row = (if message e = [] then None else Some (message e))))"

section \<open>A sample site\<close>

definition htmlResponse :: "bytes \<Rightarrow> response" where
  "htmlResponse b =
     \<lparr>status = 200, contentType = Some ''text/html; charset=utf-8'', contentLength = None,
      body = Some [Chunk b]\<rparr>"

definition statusResponse :: "nat \<Rightarrow> response" where
  "statusResponse n =
     \<lparr>status = n, contentType = Some ''text/html'', contentLength = None, body = Some []\<rparr>"

definition siteURLs :: "(string \<times> URL) list" where
  "siteURLs =
     [(''https://a.com'', mkURL ''https://a.com/'' ''https:'' ''a.com'' ''https://a.com'' ''/''),
      (''https://a.com/about'',
         mkURL ''https://a.com/about'' ''https:'' ''a.com'' ''https://a.com'' ''/about''),
      (''https://a.com/contact'',
         mkURL ''https://a.com/contact'' ''https:'' ''a.com'' ''https://a.com'' ''/contact''),
      (''https://a.com/x'', mkURL ''https://a.com/x'' ''https:'' ''a.com'' ''https://a.com'' ''/x''),
      (''https://other.org/about'',
         mkURL ''https://other.org/about'' ''https:'' ''other.org'' ''https://other.org'' ''/about''),
      (''https://moved.example'',
         mkURL ''https://moved.example/'' ''https:'' ''moved.example'' ''https://moved.example'' ''/''),
      (''https://big.example'',
         mkURL ''https://big.example/'' ''https:'' ''big.example'' ''https://big.example'' ''/'')]"

definition siteLinks :: "(string \<times> URL) list" where
  \<comment> \<open>\<open>new URL(href, 'https://a.com')\<close> for the links of the home page\<close>
  "siteLinks =
     [(''/about'', mkURL ''https://a.com/about'' ''https:'' ''a.com'' ''https://a.com'' ''/about''),
      (''/contact'',
         mkURL ''https://a.com/contact'' ''https:'' ''a.com'' ''https://a.com'' ''/contact''),
      (''https://other.org/about'',
         mkURL ''https://other.org/about'' ''https:'' ''other.org'' ''https://other.org'' ''/about'')]"

definition siteFetch :: "redirectMode \<Rightarrow> string \<Rightarrow> jsError + response" where
  \<comment> \<open>the home page and \<open>/x\<close> answer with HTML; \<open>/about\<close> times out; \<open>/contact\<close> is a 404;
      \<open>moved.example\<close> redirects to a page that would answer with HTML\<close>
  "siteFetch mode u =
     (if u = ''https://a.com/'' then Inr (htmlResponse ''<html>home</html>'')
      else if u = ''https://a.com/x'' then Inr (htmlResponse ''<html>x</html>'')
      else if u = ''https://a.com/about'' then Inl (JsError ''AbortError'' ''This operation was aborted'')
      else if u = ''https://a.com/contact'' then Inr (statusResponse 404)
      else if u = ''https://moved.example/''
      then (case mode of
              Manual \<Rightarrow> Inr (statusResponse 301)
            | Follow \<Rightarrow> Inr (htmlResponse ''<html>moved</html>''))
      else Inl (JsError ''TypeError'' ''fetch failed''))"

definition siteWorld :: "string world" where
  "siteWorld =
     quietWorld
       \<lparr>newURL := map_of siteURLs,
        newURLwithBase := (\<lambda>h b. if b = ''https://a.com'' then map_of siteLinks h else None),
        resolve4 := map_of [(''a.com'', [''93.184.216.34'']), (''other.org'', [''93.184.216.34'']),
                            (''moved.example'', [''93.184.216.34'']),
                            (''big.example'', [''93.184.216.34''])],
        fetch := siteFetch,
        anchorHrefs := (\<lambda>html. if html = ''<html>home</html>''
                                then [''/about'', ''/contact'', ''https://other.org/about'', ''/about'']
                                else []),
        analyzeWithOpenAI := (\<lambda>text. Inr (''summary'' @ text)),
        mergeAnalysisData := (\<lambda>old text. Inr (old @ ''merged'' @ text))\<rparr>"

definition bigResponse :: response where
  \<comment> \<open>declares 100 bytes and streams 6 MiB in one chunk\<close>
  "bigResponse =
     \<lparr>status = 200, contentType = Some ''text/html'', contentLength = Some ''100'',
      body = Some [Chunk (replicate (6 * 1024 * 1024) CHR ''x'')]\<rparr>"

definition bigWorld :: "string world" where
  "bigWorld = siteWorld\<lparr>fetch := (\<lambda>mode u. Inr bigResponse)\<rparr>"

definition pendingStore :: store where
  \<comment> \<open>the store after the route has saved the initial record\<close>
  "pendingStore =
     \<lparr>analysis = Some \<lparr>websiteUrl = ''https://a.com'', rowStatus = ''pending'',
                        analyzedContent = None, errorMessage = None, lastAnalyzedAt = None\<rparr>,
      analyzedPages = []\<rparr>"

definition emptyStore :: store where
  \<comment> \<open>no record for the account\<close>
  "emptyStore = \<lparr>analysis = None, analyzedPages = []\<rparr>"

definition profileStore :: store where
  \<comment> \<open>a completed record with a stored profile\<close>
  "profileStore =
     \<lparr>analysis = Some \<lparr>websiteUrl = ''https://a.com'', rowStatus = ''pending'',
                        analyzedContent = Some ''old'', errorMessage = None,
                        lastAnalyzedAt = None\<rparr>,
      analyzedPages = [''https://a.com'']\<rparr>"

definition modelDownWorld :: "string world" where
  \<comment> \<open>the sample site with a model call that throws\<close>
  "modelDownWorld =
     siteWorld\<lparr>analyzeWithOpenAI := (\<lambda>_. Inl (newError ''OpenAI returned empty response''))\<rparr>"

section \<open>Properties of \<open>isPrivateIP\<close>\<close>

subsection \<open>The pattern matches exactly the dotted quads\<close>

lemma octetGroup_app:
  assumes "octet s" "r = [] \<or> \<not> isDigit (hd r)"
  shows "octetGroup (s @ r) = Some (s, r)"
proof -
  have a: "\<forall>c \<in> set s. isDigit c" using assms(1) by (simp add: octet_def)
  have tw: "takeWhile isDigit (s @ r) = s" using a assms(2)
    by (cases r) (auto simp: takeWhile_eq_all_conv)
  have dw: "dropWhile isDigit (s @ r) = r" using a assms(2)
    by (cases r) auto
  show ?thesis using assms(1) tw dw by (simp add: octetGroup_def octet_def)
qed

lemma dot_not_digit: "\<not> isDigit CHR ''.''"
  by (simp add: isDigit_def)

lemma dotThenGroup_app:
  assumes "octet s" "r = [] \<or> \<not> isDigit (hd r)"
  shows "dotThenGroup (CHR ''.'' # s @ r) = Some (s, r)"
  using octetGroup_app [OF assms] by (simp add: dotThenGroup_def)

lemma ipv4Match_dottedQuad:
  assumes "octet sa" "octet sb" "octet sc" "octet sd"
  shows "ipv4Match (dottedQuad sa sb sc sd) = Some (sa, sb, sc, sd)"
proof -
  have 1: "octetGroup (sa @ CHR ''.'' # sb @ CHR ''.'' # sc @ CHR ''.'' # sd)
             = Some (sa, CHR ''.'' # sb @ CHR ''.'' # sc @ CHR ''.'' # sd)"
    by (rule octetGroup_app [OF assms(1)]) (simp add: dot_not_digit)
  have 2: "dotThenGroup (CHR ''.'' # sb @ CHR ''.'' # sc @ CHR ''.'' # sd)
             = Some (sb, CHR ''.'' # sc @ CHR ''.'' # sd)"
    by (rule dotThenGroup_app [OF assms(2)]) (simp add: dot_not_digit)
  have 3: "dotThenGroup (CHR ''.'' # sc @ CHR ''.'' # sd) = Some (sc, CHR ''.'' # sd)"
    by (rule dotThenGroup_app [OF assms(3)]) (simp add: dot_not_digit)
  have 4: "dotThenGroup (CHR ''.'' # sd) = Some (sd, [])"
    using dotThenGroup_app [OF assms(4), of "[]"] by simp
  show ?thesis by (simp add: ipv4Match_def dottedQuad_def 1 2 3 4)
qed

lemma octetGroup_Some:
  assumes "octetGroup s = Some (g, r)"
  shows "s = g @ r \<and> octet g"
proof -
  from assms have g: "g = takeWhile isDigit s" and r: "r = dropWhile isDigit s"
    and len: "1 \<le> length g" "length g \<le> 3"
    by (auto simp: octetGroup_def Let_def split: if_splits)
  have "\<forall>c \<in> set g. isDigit c" unfolding g by (auto dest: set_takeWhileD)
  with len show ?thesis by (simp add: g r octet_def)
qed

lemma dotThenGroup_Some:
  assumes "dotThenGroup s = Some (g, r)"
  shows "s = CHR ''.'' # g @ r \<and> octet g"
  using assms octetGroup_Some
  by (auto simp: dotThenGroup_def split: list.splits if_splits)

lemma ipv4Match_Some:
  assumes "ipv4Match ip = Some (sa, sb, sc, sd)"
  shows "ip = dottedQuad sa sb sc sd \<and> octet sa \<and> octet sb \<and> octet sc \<and> octet sd"
proof -
  from assms obtain r1 where 1: "octetGroup ip = Some (sa, r1)"
    by (auto simp: ipv4Match_def split: option.splits if_splits)
  from assms 1 obtain r2 where 2: "dotThenGroup r1 = Some (sb, r2)"
    by (auto simp: ipv4Match_def split: option.splits if_splits)
  from assms 1 2 obtain r3 where 3: "dotThenGroup r2 = Some (sc, r3)"
    by (auto simp: ipv4Match_def split: option.splits if_splits)
  from assms 1 2 3 have 4: "dotThenGroup r3 = Some (sd, [])"
    by (auto simp: ipv4Match_def split: option.splits if_splits)
  from octetGroup_Some [OF 1] dotThenGroup_Some [OF 2] dotThenGroup_Some [OF 3]
    dotThenGroup_Some [OF 4]
  show ?thesis by (simp add: dottedQuad_def)
qed

lemma toLowerChar_digit: "isDigit c \<Longrightarrow> toLowerChar c = c"
  unfolding isDigit_def by (elim disjE | simp add: toLowerChar_def upperLatin1_def lowerLatin1_def)+

lemma ipv6Special_digit_first:
  assumes "isDigit c"
  shows "\<not> ipv6Special (toLowerCase (c # r))"
proof -
  have ne: "c \<noteq> CHR '':''" "c \<noteq> CHR ''f''"
    using assms by (auto simp: isDigit_def)
  have "toLowerCase (c # r) = c # toLowerCase r"
    using assms by (simp add: toLowerCase_def toLowerChar_digit)
  then show ?thesis using ne by (simp add: ipv6Special_def startsWith_def)
qed

lemma octet_first_digit: "octet s \<Longrightarrow> \<exists>c r. s = c # r \<and> isDigit c"
  by (cases s) (auto simp: octet_def)

lemma ipv6Special_dottedQuad:
  assumes "octet sa"
  shows "\<not> ipv6Special (toLowerCase (dottedQuad sa sb sc sd))"
proof -
  from octet_first_digit [OF assms] obtain c r where "sa = c # r" "isDigit c" by blast
  then show ?thesis using ipv6Special_digit_first [of c] by (simp add: dottedQuad_def)
qed



lemma startsWith_prefix: "startsWith s p = prefix p s"
proof
  assume a: "startsWith s p"
  have "s = take (length p) s @ drop (length p) s" by simp
  with a have "s = p @ drop (length p) s" by (simp add: startsWith_def)
  then show "prefix p s" unfolding prefix_def by blast
next
  assume "prefix p s"
  then show "startsWith s p" by (auto simp: prefix_def startsWith_def)
qed

subsection \<open>The source's range test against the specification's ranges\<close>

lemma top8: "b \<le> 255 \<Longrightarrow> c \<le> 255 \<Longrightarrow> d \<le> 255 \<Longrightarrow> addr32 a b c d div 16777216 = a"
  by (simp add: addr32_def)

lemma top16: "c \<le> 255 \<Longrightarrow> d \<le> 255 \<Longrightarrow> addr32 a b c d div 65536 = a * 256 + b"
  by (simp add: addr32_def)

lemma top24: "d \<le> 255 \<Longrightarrow> addr32 a b c d div 256 = (a * 256 + b) * 256 + c"
  by (simp add: addr32_def)

lemma top12: "c \<le> 255 \<Longrightarrow> d \<le> 255 \<Longrightarrow> addr32 a b c d div 1048576 = a * 16 + b div 16"
  by (simp add: addr32_def)

lemma pair_eq:
  fixes a b k l n :: nat
  assumes "b < n" "l < n"
  shows "(a * n + b = k * n + l) = (a = k \<and> b = l)"
proof
  assume eq: "a * n + b = k * n + l"
  have "(a * n + b) div n = a" "(k * n + l) div n = k" using assms by simp_all
  with eq have "a = k" by simp
  with eq show "a = k \<and> b = l" by simp
qed simp

lemma inCidr8:
  assumes "b \<le> 255" "c \<le> 255" "d \<le> 255"
  shows "inCidr (addr32 a b c d) (addr32 k 0 0 0) 8 = (a = k)"
  using assms by (simp add: inCidr_def top8)

lemma inCidr16:
  assumes "b \<le> 255" "c \<le> 255" "d \<le> 255" "l \<le> 255"
  shows "inCidr (addr32 a b c d) (addr32 k l 0 0) 16 = (a = k \<and> b = l)"
proof -
  have "(a * 256 + b = k * 256 + l) = (a = k \<and> b = l)"
    using assms by (intro pair_eq) simp_all
  then show ?thesis using assms by (simp add: inCidr_def top16)
qed

lemma inCidr24:
  assumes "b \<le> 255" "c \<le> 255" "d \<le> 255" "l \<le> 255" "m \<le> 255"
  shows "inCidr (addr32 a b c d) (addr32 k l m 0) 24 = (a = k \<and> b = l \<and> c = m)"
proof -
  have 1: "((a * 256 + b) * 256 + c = (k * 256 + l) * 256 + m) = (a * 256 + b = k * 256 + l \<and> c = m)"
    using assms by (intro pair_eq) simp_all
  have 2: "(a * 256 + b = k * 256 + l) = (a = k \<and> b = l)"
    using assms by (intro pair_eq) simp_all
  have "inCidr (addr32 a b c d) (addr32 k l m 0) 24
          = ((a * 256 + b) * 256 + c = (k * 256 + l) * 256 + m)"
    using assms by (simp only: inCidr_def top24) (simp add: top24)
  then show ?thesis by (simp only: 1 2) simp
qed

lemma inCidr12:
  assumes "b \<le> 255" "c \<le> 255" "d \<le> 255"
  shows "inCidr (addr32 a b c d) (addr32 172 16 0 0) 12 = (a = 172 \<and> 16 \<le> b \<and> b \<le> 31)"
proof -
  have lt: "b div 16 < 16" using assms by simp
  have 1: "(a * 16 + b div 16 = 172 * 16 + 1) = (a = 172 \<and> b div 16 = 1)"
    using lt by (intro pair_eq) simp_all
  have 2: "(b div 16 = 1) = (16 \<le> b \<and> b \<le> 31)"
  proof
    assume "b div 16 = 1"
    then have "1 * 16 \<le> b" "b < (1 + 1) * 16"
      using less_eq_div_iff_mult_less_eq [of 16 1 b] div_less_iff_less_mult [of 16 b 2]
      by simp_all
    then show "16 \<le> b \<and> b \<le> 31" by simp
  next
    assume "16 \<le> b \<and> b \<le> 31"
    then show "b div 16 = 1" by (intro div_nat_eqI) simp_all
  qed
  have "inCidr (addr32 a b c d) (addr32 172 16 0 0) 12 = (a * 16 + b div 16 = 172 * 16 + 1)"
    using assms by (simp add: inCidr_def top12)
  then show ?thesis by (simp only: 1 2)
qed

lemma from224:
  assumes "b \<le> 255" "c \<le> 255" "d \<le> 255"
  shows "(addr32 224 0 0 0 \<le> addr32 a b c d) = (224 \<le> a)"
proof -
  have "(224 \<le> addr32 a b c d div 16777216) = (224 * 16777216 \<le> addr32 a b c d)"
    by (rule less_eq_div_iff_mult_less_eq) simp
  moreover have "addr32 224 0 0 0 = 224 * 16777216" by (simp add: addr32_def)
  ultimately show ?thesis using top8 [OF assms, of a] by simp
qed

lemma privateRange_spec:
  assumes "a \<le> 255" "b \<le> 255" "c \<le> 255" "d \<le> 255"
  shows "privateRange a b c d = specBlockedV4 (addr32 a b c d)"
  unfolding privateRange_def specBlockedV4_def
  using assms by (simp only: inCidr8 inCidr16 inCidr24 inCidr12 from224)


text \<open>
  On a string of four dot-separated groups of one to three decimal digits, which is
  what the pattern accepts, \<open>isPrivateIP\<close> returns true exactly when some group is a
  number above 255 or the address lies in one of the ranges the specification lists.
\<close>

lemma isPrivateIP_ipv4_ranges:
  assumes "octet sa" "octet sb" "octet sc" "octet sd"
  shows "isPrivateIP (dottedQuad sa sb sc sd) =
           (Number sa > 255 \<or> Number sb > 255 \<or> Number sc > 255 \<or> Number sd > 255
            \<or> specBlockedV4 (addr32 (Number sa) (Number sb) (Number sc) (Number sd)))"
proof (cases "Number sa > 255 \<or> Number sb > 255 \<or> Number sc > 255 \<or> Number sd > 255")
  case True
  then have "isPrivateIP (dottedQuad sa sb sc sd)"
    by (simp add: isPrivateIP_def ipv4Match_dottedQuad [OF assms] Let_def)
  with True show ?thesis by blast
next
  case False
  then have le: "Number sa \<le> 255" "Number sb \<le> 255" "Number sc \<le> 255" "Number sd \<le> 255"
    by simp_all
  have "isPrivateIP (dottedQuad sa sb sc sd)
          = privateRange (Number sa) (Number sb) (Number sc) (Number sd)"
    using False ipv6Special_dottedQuad [OF assms(1), of sb sc sd]
    by (simp add: isPrivateIP_def ipv4Match_dottedQuad [OF assms] Let_def)
  with False show ?thesis by (simp add: privateRange_spec [OF le])
qed

lemma isPrivateIP_ipv4_examples:
  "octet ''172'' \<and> octet ''20'' \<and> octet ''3'' \<and> octet ''8'' \<and> octet ''256''
   \<and> isPrivateIP (dottedQuad ''172'' ''20'' ''3'' ''3'')
   \<and> isPrivateIP (dottedQuad ''256'' ''3'' ''3'' ''3'')
   \<and> \<not> isPrivateIP (dottedQuad ''8'' ''8'' ''8'' ''8'')"
proof -
  have o: "octet ''172''" "octet ''20''" "octet ''3''" "octet ''8''" "octet ''256''"
    by (simp_all add: octet_def isDigit_def)
  have n: "Number ''172'' = 172" "Number ''20'' = 20" "Number ''3'' = 3" "Number ''8'' = 8"
    "Number ''256'' = 256"
    by (simp_all add: Number_def digitValue_def)
  have s1: "specBlockedV4 (addr32 172 20 3 3)"
    by (simp add: specBlockedV4_def inCidr_def addr32_def)
  have s2: "\<not> specBlockedV4 (addr32 8 8 8 8)"
    by (simp add: specBlockedV4_def inCidr_def addr32_def)
  show ?thesis
    using isPrivateIP_ipv4_ranges [OF o(1) o(2) o(3) o(3)]
      isPrivateIP_ipv4_ranges [OF o(5) o(3) o(3) o(3)]
      isPrivateIP_ipv4_ranges [OF o(4) o(4) o(4) o(4)]
    by (simp add: o n s1 s2)
qed

text \<open>
  Claim C1. \<open>isPrivateIP\<close> blocks the addresses of the listed ranges and leaves public
  addresses such as 8.8.8.8 and 93.184.216.34 alone (\<open>isPrivateIP_ipv4_ranges\<close>), and it
  blocks a quad with a group between 256 and 999. It does not return true for every
  dotted quad with a component above 255: the pattern admits at most three digits in a
  group, so \<open>1000.1.1.1\<close> and \<open>1.1.1.1000\<close> do not match, the test "Invalid IP, treat as
  private" is never reached, and the result is false.
\<close>

theorem isPrivateIP_long_group_not_blocked:
  "isPrivateIP ''10.1.2.3'' \<and> isPrivateIP ''256.1.1.1'' \<and> isPrivateIP ''1.1.1.999''
   \<and> \<not> isPrivateIP ''8.8.8.8'' \<and> \<not> isPrivateIP ''93.184.216.34''
   \<and> ipv4Match ''1000.1.1.1'' = None \<and> isPrivateIP ''1000.1.1.1'' = False
   \<and> isPrivateIP ''1.1.1.1000'' = False"
  by code_simp

lemma no_match_not_quad:
  assumes "ipv4Match ip = None"
  shows "\<not> (\<exists>sa sb sc sd. octet sa \<and> octet sb \<and> octet sc \<and> octet sd \<and> ip = dottedQuad sa sb sc sd)"
proof
  assume "\<exists>sa sb sc sd. octet sa \<and> octet sb \<and> octet sc \<and> octet sd \<and> ip = dottedQuad sa sb sc sd"
  then obtain sa sb sc sd where "octet sa" "octet sb" "octet sc" "octet sd"
    and ip: "ip = dottedQuad sa sb sc sd" by blast
  then have "ipv4Match ip = Some (sa, sb, sc, sd)" by (simp add: ipv4Match_dottedQuad)
  with assms show False by simp
qed

text \<open>
  Claim C10. \<open>isPrivateIP\<close> is a total function of its string argument (the source
  performs a pattern match, numeric comparisons and string comparisons, none of which can
  throw), and it returns false on every string that is not a dotted quad and whose
  lower-cased form is neither \<open>::1\<close> nor \<open>::\<close> and starts with none of \<open>::ffff:\<close>,
  \<open>fe80:\<close>, \<open>fc\<close>, \<open>fd\<close>, \<open>ff\<close>. Malformed strings such as \<open>1.2.3\<close>, \<open>1.2.3.4.5\<close>
  or a host name are therefore classified as not blocked, and so is a string with a
  group of more than three digits, such as \<open>1000.1.1.1\<close>, which the pattern does not
  match.
\<close>

theorem isPrivateIP_false_outside_patterns:
  assumes "\<not> (\<exists>sa sb sc sd. octet sa \<and> octet sb \<and> octet sc \<and> octet sd
                 \<and> ip = dottedQuad sa sb sc sd)"
    and "toLowerCase ip \<noteq> ''::1''" and "toLowerCase ip \<noteq> ''::''"
    and "\<not> prefix ''::ffff:'' (toLowerCase ip)" and "\<not> prefix ''fe80:'' (toLowerCase ip)"
    and "\<not> prefix ''fc'' (toLowerCase ip)" and "\<not> prefix ''fd'' (toLowerCase ip)"
    and "\<not> prefix ''ff'' (toLowerCase ip)"
  shows "isPrivateIP ip = False"
proof -
  have "ipv4Match ip = None"
  proof (cases "ipv4Match ip")
    case (Some q)
    obtain sa sb sc sd where q: "q = (sa, sb, sc, sd)" by (cases q) auto
    from Some q have "ipv4Match ip = Some (sa, sb, sc, sd)" by simp
    from ipv4Match_Some [OF this] assms(1) show ?thesis by blast
  qed simp
  moreover have "\<not> ipv6Special (toLowerCase ip)"
    using assms(2-) by (simp add: ipv6Special_def startsWith_prefix)
  ultimately show ?thesis by (simp add: isPrivateIP_def)
qed

theorem isPrivateIP_false_outside_patterns_witness:
  "isPrivateIP ''1.2.3'' = False \<and> isPrivateIP ''1.2.3.4.5'' = False
   \<and> isPrivateIP ''example.com'' = False \<and> isPrivateIP ''1000.1.1.1'' = False"
proof -
  have m: "ipv4Match ''1.2.3'' = None" "ipv4Match ''1.2.3.4.5'' = None"
    "ipv4Match ''example.com'' = None" "ipv4Match ''1000.1.1.1'' = None"
    by (simp_all add: ipv4Match_def octetGroup_def dotThenGroup_def isDigit_def)
  have l: "toLowerCase ''1.2.3'' = ''1.2.3''" "toLowerCase ''1.2.3.4.5'' = ''1.2.3.4.5''"
    "toLowerCase ''example.com'' = ''example.com''" "toLowerCase ''1000.1.1.1'' = ''1000.1.1.1''"
    by (simp_all add: toLowerCase_def toLowerChar_def upperLatin1_def lowerLatin1_def)
  show ?thesis
    using isPrivateIP_false_outside_patterns [OF no_match_not_quad [OF m(1)]]
      isPrivateIP_false_outside_patterns [OF no_match_not_quad [OF m(2)]]
      isPrivateIP_false_outside_patterns [OF no_match_not_quad [OF m(3)]]
      isPrivateIP_false_outside_patterns [OF no_match_not_quad [OF m(4)]]
    by (simp add: l)
qed

section \<open>Properties of \<open>validateUrl\<close>\<close>

lemma checkResolved_private:
  "addr \<in> set as \<Longrightarrow> isPrivateIP addr \<Longrightarrow>
     checkResolved as = Inl (newError ''Domain resolves to a private IP address'')"
  by (induction as) auto

lemma checkResolved_public:
  "(\<forall>addr \<in> set as. \<not> isPrivateIP addr) \<Longrightarrow> checkResolved as = Inr ()"
  by (induction as) auto

lemma msg_private_kept: "includes_str ''Domain resolves to a private IP address'' ''private IP''"
  by (simp add: startsWith_def)

lemma msg_unresolved_kept: "includes_str ''Unable to resolve hostname'' ''Unable to resolve''"
  by (simp add: startsWith_def)

lemma dnsCheck_private:
  assumes "addr \<in> set (resolveAll W h)" "isPrivateIP addr"
  shows "dnsCheck W h = Inl (newError ''Domain resolves to a private IP address'')"
proof -
  from assms(1) have ne: "resolveAll W h \<noteq> []" by auto
  show ?thesis
    using ne checkResolved_private [OF assms] msg_private_kept
    by (simp add: dnsCheck_def newError_def)
qed


text \<open>
  Once a host name has reached the lookup, a single blocked address anywhere among the
  resolved A and AAAA addresses (a failed lookup of one kind counting as no address)
  makes \<open>validateUrl\<close> fail with "Domain resolves to a private IP address": every
  resolved address is checked, not only the first, and the \<open>catch\<close> block passes that
  error on unchanged.
\<close>

lemma validateUrl_dns_rebinding:
  assumes "newURL W (ensureProtocol url) = Some p"
    and "protocol p = ''http:'' \<or> protocol p = ''https:''"
    and "toLowerCase (hostname p) \<noteq> ''localhost''"
    and "\<not> includes_str (toLowerCase (hostname p)) ''metadata''"
    and "\<not> ((isPrivateIP (toLowerCase (hostname p)) \<or> includes_str (toLowerCase (hostname p)) '':'')
            \<and> isPrivateIP (stripBrackets (toLowerCase (hostname p))))"
    and "addr \<in> set (resolveAll W (toLowerCase (hostname p)))"
    and "isPrivateIP addr"
  shows "validateUrl W url = Inl (newError ''Domain resolves to a private IP address'')"
proof -
  have d: "dnsCheck W (toLowerCase (hostname p))
             = Inl (newError ''Domain resolves to a private IP address'')"
    using assms(6,7) by (rule dnsCheck_private)
  have pr: "\<not> (protocol p \<noteq> ''http:'' \<and> protocol p \<noteq> ''https:'')"
    using assms(2) by blast
  show ?thesis
    unfolding validateUrl_def Let_def
    by (simp only: assms(1) option.simps pr if_False assms(3) assms(4) assms(5) d sum.simps)
qed


lemma validateUrl_dns_rebinding_examples:
  "validateUrl guardWorld ''https://rebind.example''
     = Inl (newError ''Domain resolves to a private IP address'')
   \<and> validateUrl guardWorld ''https://mixed.example''
     = Inl (newError ''Domain resolves to a private IP address'')"
proof -
  let ?p = "mkURL ''https://rebind.example/'' ''https:'' ''rebind.example''
              ''https://rebind.example'' ''/''"
  let ?q = "mkURL ''https://mixed.example/'' ''https:'' ''mixed.example''
              ''https://mixed.example'' ''/''"
  have p1: "newURL guardWorld (ensureProtocol ''https://rebind.example'') = Some ?p"
    by code_simp
  have p2: "protocol ?p = ''http:'' \<or> protocol ?p = ''https:''" by code_simp
  have p3: "toLowerCase (hostname ?p) \<noteq> ''localhost''" by code_simp
  have p4: "\<not> includes_str (toLowerCase (hostname ?p)) ''metadata''" by code_simp
  have p5: "\<not> ((isPrivateIP (toLowerCase (hostname ?p))
                 \<or> includes_str (toLowerCase (hostname ?p)) '':'')
                \<and> isPrivateIP (stripBrackets (toLowerCase (hostname ?p))))" by code_simp
  have p6: "''127.0.0.1'' \<in> set (resolveAll guardWorld (toLowerCase (hostname ?p)))"
    by code_simp
  have q1: "newURL guardWorld (ensureProtocol ''https://mixed.example'') = Some ?q"
    by code_simp
  have q2: "protocol ?q = ''http:'' \<or> protocol ?q = ''https:''" by code_simp
  have q3: "toLowerCase (hostname ?q) \<noteq> ''localhost''" by code_simp
  have q4: "\<not> includes_str (toLowerCase (hostname ?q)) ''metadata''" by code_simp
  have q5: "\<not> ((isPrivateIP (toLowerCase (hostname ?q))
                 \<or> includes_str (toLowerCase (hostname ?q)) '':'')
                \<and> isPrivateIP (stripBrackets (toLowerCase (hostname ?q))))" by code_simp
  have q6: "''10.0.0.5'' \<in> set (resolveAll guardWorld (toLowerCase (hostname ?q)))"
    by code_simp
  have a1: "isPrivateIP ''127.0.0.1''" by code_simp
  have a2: "isPrivateIP ''10.0.0.5''" by code_simp
  show ?thesis
    using validateUrl_dns_rebinding [OF p1 p2 p3 p4 p5 p6 a1]
      validateUrl_dns_rebinding [OF q1 q2 q3 q4 q5 q6 a2]
    by simp
qed


text \<open>
  Claim C2. Not every host name that is not an IP literal and resolves to a blocked
  address fails with "Domain resolves to a private IP address". Under the comment
  "Check if hostname is already an IP address" the guard applies \<open>isPrivateIP\<close> to the
  host name itself, and the IPv6 prefix tests of \<open>isPrivateIP\<close> accept any name that
  begins with \<open>ff\<close> (likewise \<open>fc\<close>, \<open>fd\<close>, \<open>fe80:\<close>). The name \<open>ffmpeg.org\<close> is not an
  IP literal and resolves to the loopback address, yet it is refused with "Access to
  private IP addresses is not allowed" before any lookup, and it is refused in the same
  way when it resolves to a public address.
\<close>

theorem validateUrl_host_name_taken_for_address:
  "ipv4Match ''ffmpeg.org'' = None \<and> \<not> includes_str ''ffmpeg.org'' '':''
   \<and> ''127.0.0.1'' \<in> set (resolveAll guardWorld ''ffmpeg.org'') \<and> isPrivateIP ''127.0.0.1''
   \<and> validateUrl guardWorld ''https://ffmpeg.org''
       = Inl (newError ''Access to private IP addresses is not allowed'')
   \<and> validateUrl guardWorld ''https://ffmpeg.org''
       \<noteq> Inl (newError ''Domain resolves to a private IP address'')
   \<and> validateUrl (guardWorld\<lparr>resolve4 := map_of [(''ffmpeg.org'', [''93.184.216.34''])]\<rparr>)
         ''https://ffmpeg.org''
       = Inl (newError ''Access to private IP addresses is not allowed'')"
  by code_simp

lemma ensureProtocol_scheme:
  "startsWith (ensureProtocol url) ''http://'' \<or> startsWith (ensureProtocol url) ''https://''"
  by (simp add: ensureProtocol_def startsWith_def)

lemma checkResolved_error:
  "checkResolved as = Inl e \<Longrightarrow> e = newError ''Domain resolves to a private IP address''"
  by (induction as) (auto split: if_splits)

lemma dnsCheck_error:
  assumes "dnsCheck W h = Inl e"
  shows "e = newError ''Domain resolves to a private IP address''
         \<or> e = newError ''Unable to resolve hostname''
         \<or> e = newError ''Unable to resolve hostname. Please check the URL.''"
  using assms
  by (auto simp: dnsCheck_def Let_def split: if_splits sum.splits dest: checkResolved_error)

lemma protocol_check_unreachable:
  assumes http: "\<And>s u. newURL W s = Some u \<Longrightarrow> startsWith s ''http://'' \<Longrightarrow> protocol u = ''http:''"
    and https: "\<And>s u. newURL W s = Some u \<Longrightarrow> startsWith s ''https://'' \<Longrightarrow> protocol u = ''https:''"
  shows "validateUrl W url \<noteq> Inl (newError ''Only HTTP and HTTPS protocols are allowed'')"
proof (cases "newURL W (ensureProtocol url)")
  case None
  then show ?thesis by (simp add: validateUrl_def newError_def)
next
  case (Some p)
  from ensureProtocol_scheme [of url] http [OF Some] https [OF Some]
  have pr: "protocol p = ''http:'' \<or> protocol p = ''https:''" by blast
  show ?thesis
  proof
    assume a: "validateUrl W url = Inl (newError ''Only HTTP and HTTPS protocols are allowed'')"
    then obtain e where "dnsCheck W (toLowerCase (hostname p)) = Inl e"
      and "e = newError ''Only HTTP and HTTPS protocols are allowed''"
      using Some pr
      by (auto simp: validateUrl_def Let_def newError_def split: if_splits sum.splits)
    with dnsCheck_error show False by (fastforce simp: newError_def)
  qed
qed


text \<open>
  Claim C7. \<open>validateUrl\<close> fails with "Access to localhost is not allowed" on
  \<open>http://localhost/x\<close> and with "Invalid URL format" on \<open>not a url\<close>, both before any
  lookup. On \<open>ftp://example.com\<close> it does not fail with "Only HTTP and HTTPS protocols are
  allowed": the input does not start with \<open>http://\<close> or \<open>https://\<close>, so \<open>https://\<close> is put
  in front of it, the URL constructor reads \<open>https://ftp://example.com\<close> as the host
  \<open>ftp\<close> with the path \<open>//example.com\<close>, and validation goes on to resolve the host
  \<open>ftp\<close>. By \<open>protocol_check_unreachable\<close> the protocol check can never fire, since every
  string handed to the constructor starts with one of the two allowed schemes.
\<close>

theorem validateUrl_preflight_examples:
  "validateUrl guardWorld ''http://localhost/x''
     = Inl (newError ''Access to localhost is not allowed'')
   \<and> validateUrl guardWorld ''not a url'' = Inl (newError ''Invalid URL format'')
   \<and> ensureProtocol ''ftp://example.com'' = ''https://ftp://example.com''
   \<and> validateUrl guardWorld ''ftp://example.com''
       = Inl (newError ''Unable to resolve hostname'')
   \<and> validateUrl guardWorld ''ftp://example.com''
       \<noteq> Inl (newError ''Only HTTP and HTTPS protocols are allowed'')"
  by code_simp


section \<open>Properties of the two fetch paths\<close>

lemma readLoop_overflow:
  "totalSize \<le> MAX_SIZE \<Longrightarrow> totalSize + sum_list (map length pre) > MAX_SIZE \<Longrightarrow>
     readLoop (map Chunk pre @ rest) chunks totalSize
       = Inl (newError ''Website content exceeded size limit during download'')"
proof (induction pre arbitrary: chunks totalSize)
  case Nil
  then show ?case by simp
next
  case (Cons v pre)
  show ?case
  proof (cases "totalSize + length v > MAX_SIZE")
    case True
    then show ?thesis by simp
  next
    case False
    then have le: "totalSize + length v \<le> MAX_SIZE" by simp
    from Cons.prems(2) have "totalSize + length v + sum_list (map length pre) > MAX_SIZE"
      by (simp add: add.assoc)
    from Cons.IH [OF le this] False show ?thesis by simp
  qed
qed

lemma readLoop_within:
  "totalSize + sum_list (map length cs) \<le> MAX_SIZE \<Longrightarrow>
     readLoop (map Chunk cs) chunks totalSize
       = Inr (chunks @ cs, totalSize + sum_list (map length cs))"
  by (induction cs arbitrary: chunks totalSize) (simp_all add: Let_def add.assoc)

lemma readText_chunks: "readText (map Chunk cs) acc = Inr (acc @ concat cs)"
  by (induction cs arbitrary: acc) simp_all

lemma msg_size_generic:
  "\<not> includes_str ''Website content exceeded size limit during download'' ''not allowed''"
  "\<not> includes_str ''Website content exceeded size limit during download'' ''Invalid URL''"
  by (simp_all add: startsWith_def)

lemma msg_redirect_generic:
  "\<not> includes_str ''Website redirects are not supported. Please provide the final URL.'' ''not allowed''"
  "\<not> includes_str ''Website redirects are not supported. Please provide the final URL.'' ''Invalid URL''"
  by (simp_all add: startsWith_def)


lemma scrape_overflow:
  assumes v: "validateUrl W url = Inr u"
    and f: "fetch W Manual (href u) = Inr r"
    and okr: "ok r"
    and ct: "contentType r = Some ct" "includes_str ct ''text/html''"
    and hdr: "\<not> exceeds (contentLength r) MAX_SIZE"
    and b: "body r = Some (map Chunk pre @ rest)"
    and big: "sum_list (map length pre) > MAX_SIZE"
  shows "scrapeAttempt W u = Inl (newError ''Website content exceeded size limit during download'')"
    and "scrapeWebsite W url
           = Inl (newError ''Unable to access the website. Please check the URL and try again.'')"
proof -
  have st: "\<not> 300 \<le> status r" using okr by (simp add: ok_def)
  from ct(2) have ne: "ct \<noteq> []" by auto
  have rl: "readLoop (map Chunk pre @ rest) [] 0
              = Inl (newError ''Website content exceeded size limit during download'')"
    using big by (intro readLoop_overflow) simp_all
  show att: "scrapeAttempt W u
               = Inl (newError ''Website content exceeded size limit during download'')"
    using st okr hdr ct ne rl by (simp add: scrapeAttempt_def f b)
  show "scrapeWebsite W url
          = Inl (newError ''Unable to access the website. Please check the URL and try again.'')"
    using msg_size_generic by (simp add: scrapeWebsite_def v att newError_def)
qed

lemma fetchPageHtml_reads_all:
  assumes v: "validateUrl W url = Inr u"
    and f: "fetch W Manual (href u) = Inr r"
    and okr: "ok r"
    and hdr: "\<not> exceeds (contentLength r) MAX_SIZE"
    and b: "body r = Some (map Chunk cs)"
  shows "fetchPageHtml W url = Inr (take 500000 (decode W (concat cs)))"
proof -
  have st: "\<not> 300 \<le> status r" using okr by (simp add: ok_def)
  have h5: "\<not> exceeds (contentLength r) (5 * 1024 * 1024)" using hdr by (simp add: MAX_SIZE_def)
  show ?thesis using st okr h5 by (simp add: fetchPageHtml_def v f b readText_chunks)
qed

lemma scrape_redirect:
  assumes v: "validateUrl W url = Inr u"
    and f: "fetch W Manual (href u) = Inr r"
    and st: "300 \<le> status r" "status r < 400"
  shows "scrapeAttempt W u
           = Inl (newError ''Website redirects are not supported. Please provide the final URL.'')"
    and "scrapeWebsite W url
           = Inl (newError ''Unable to access the website. Please check the URL and try again.'')"
proof -
  show att: "scrapeAttempt W u
           = Inl (newError ''Website redirects are not supported. Please provide the final URL.'')"
    using st by (simp add: scrapeAttempt_def f)
  show "scrapeWebsite W url
           = Inl (newError ''Unable to access the website. Please check the URL and try again.'')"
    using msg_redirect_generic by (simp add: scrapeWebsite_def v att newError_def)
qed

lemma fetchPageHtml_redirect:
  assumes v: "validateUrl W url = Inr u"
    and f: "fetch W Manual (href u) = Inr r"
    and st: "300 \<le> status r" "status r < 400"
  shows "fetchPageHtml W url = Inl (newError ''Redirects not supported'')"
  using st by (simp add: fetchPageHtml_def v f)

lemma resolveAll_fetch_update: "resolveAll (W\<lparr>fetch := g\<rparr>) h = resolveAll W h"
  by (simp add: resolveAll_def)

lemma dnsCheck_fetch_update: "dnsCheck (W\<lparr>fetch := g\<rparr>) h = dnsCheck W h"
  by (simp add: dnsCheck_def resolveAll_fetch_update)

lemma validateUrl_fetch_update: "validateUrl (W\<lparr>fetch := g\<rparr>) url = validateUrl W url"
  by (simp add: validateUrl_def dnsCheck_fetch_update Let_def split: option.splits)

lemma bigWorld_validated:
  "validateUrl bigWorld ''https://big.example''
     = Inr (mkURL ''https://big.example/'' ''https:'' ''big.example'' ''https://big.example'' ''/'')"
proof -
  have "validateUrl siteWorld ''https://big.example''
     = Inr (mkURL ''https://big.example/'' ''https:'' ''big.example'' ''https://big.example'' ''/'')"
    by code_simp
  then show ?thesis by (simp add: bigWorld_def validateUrl_fetch_update)
qed

lemma bigWorld_fetch: "fetch bigWorld mode u = Inr bigResponse"
  by (simp add: bigWorld_def)

lemma bigResponse_facts:
  "ok bigResponse" "contentType bigResponse = Some ''text/html''"
  "contentLength bigResponse = Some ''100''"
  "body bigResponse = Some (map Chunk [replicate (6 * 1024 * 1024) CHR ''x''] @ [])"
  "body bigResponse = Some (map Chunk [replicate (6 * 1024 * 1024) CHR ''x''])"
  by (simp_all add: bigResponse_def ok_def)

lemma small_header: "\<not> exceeds (Some ''100'') MAX_SIZE"
proof -
  have "parseInt ''100'' = Some 100" by code_simp
  then show ?thesis by (simp add: exceeds_def MAX_SIZE_def)
qed

lemma bigWorld_decode: "decode bigWorld b = b"
  by (simp add: bigWorld_def siteWorld_def quietWorld_def)

lemma fetchPageHtml_large_header:
  assumes v: "validateUrl W url = Inr u"
    and f: "fetch W Manual (href u) = Inr r"
    and okr: "ok r"
    and hdr: "exceeds (contentLength r) MAX_SIZE"
  shows "fetchPageHtml W url = Inl (newError ''Content too large'')"
proof -
  have st: "\<not> 300 \<le> status r" using okr by (simp add: ok_def)
  have h5: "exceeds (contentLength r) (5 * 1024 * 1024)" using hdr by (simp add: MAX_SIZE_def)
  show ?thesis using st okr h5 by (simp add: fetchPageHtml_def v f)
qed

text \<open>
  Claim C3. The scrape path streams: as soon as the chunks read add up to more than
  5 MiB the read loop of \<open>scrapeWebsite\<close> stops with "Website content exceeded size limit
  during download", whatever the \<open>Content-Length\<close> header said (\<open>scrape_overflow\<close>; the
  \<open>catch\<close> block then reports the generic "Unable to access the website" error). The
  link-discovery path does not: \<open>fetchPageHtml\<close> looks at the \<open>Content-Length\<close> header
  only, reads the whole body with \<open>response.text()\<close> and cuts the text to 500000
  characters afterwards. For the response that declares 100 bytes and streams 6 MiB it
  raises no size error and returns the first 500000 characters of the fully buffered
  body.
\<close>

theorem fetchPageHtml_buffers_whole_body:
  "contentLength bigResponse = Some ''100''
   \<and> body bigResponse = Some [Chunk (replicate (6 * 1024 * 1024) CHR ''x'')]
   \<and> fetch bigWorld Manual ''https://big.example/'' = Inr bigResponse
   \<and> fetchPageHtml bigWorld ''https://big.example'' = Inr (replicate 500000 CHR ''x'')
   \<and> scrapeAttempt bigWorld
        (mkURL ''https://big.example/'' ''https:'' ''big.example'' ''https://big.example'' ''/'')
       = Inl (newError ''Website content exceeded size limit during download'')
   \<and> scrapeWebsite bigWorld ''https://big.example''
       = Inl (newError ''Unable to access the website. Please check the URL and try again.'')"
proof -
  have hdr: "\<not> exceeds (contentLength bigResponse) MAX_SIZE"
    by (simp add: bigResponse_facts small_header)
  have big: "sum_list (map length [replicate (6 * 1024 * 1024) CHR ''x'']) > MAX_SIZE"
    by (simp add: MAX_SIZE_def)
  have ct: "includes_str ''text/html'' ''text/html''" by (simp add: startsWith_def)
  have 1: "fetchPageHtml bigWorld ''https://big.example'' = Inr (replicate 500000 CHR ''x'')"
    using fetchPageHtml_reads_all
      [OF bigWorld_validated bigWorld_fetch bigResponse_facts(1) hdr bigResponse_facts(5)]
    by (simp add: bigWorld_decode)
  note s = scrape_overflow
      [OF bigWorld_validated bigWorld_fetch bigResponse_facts(1) bigResponse_facts(2) ct hdr
          bigResponse_facts(4) big]
  from 1 s show ?thesis by (simp add: bigResponse_facts bigWorld_fetch)
qed

text \<open>
  Claim C4, as amended. Both fetch paths ask the transport not to follow redirects
  (\<open>redirect: 'manual'\<close>) and turn any 3xx response into an error: on the primary page
  fetch \<open>scrapeWebsite\<close> raises "Website redirects are not supported. Please provide the
  final URL.", which its \<open>catch\<close> reports as the generic "Unable to access the website"
  error; on the link-discovery path \<open>fetchPageHtml\<close> fails with "Redirects not
  supported". No path follows a redirect.
\<close>

theorem redirects_rejected_on_both_paths:
  assumes "validateUrl W url = Inr u"
    and "fetch W Manual (href u) = Inr r"
    and "300 \<le> status r" "status r < 400"
  shows "scrapeAttempt W u
           = Inl (newError ''Website redirects are not supported. Please provide the final URL.'')
         \<and> scrapeWebsite W url
           = Inl (newError ''Unable to access the website. Please check the URL and try again.'')
         \<and> fetchPageHtml W url = Inl (newError ''Redirects not supported'')"
  using scrape_redirect [OF assms] fetchPageHtml_redirect [OF assms] by simp

theorem redirects_rejected_on_both_paths_witness:
  "scrapeWebsite siteWorld ''https://moved.example''
     = Inl (newError ''Unable to access the website. Please check the URL and try again.'')
   \<and> fetchPageHtml siteWorld ''https://moved.example'' = Inl (newError ''Redirects not supported'')"
proof -
  let ?u = "mkURL ''https://moved.example/'' ''https:'' ''moved.example'' ''https://moved.example'' ''/''"
  have v: "validateUrl siteWorld ''https://moved.example'' = Inr ?u" by code_simp
  have f: "fetch siteWorld Manual (href ?u) = Inr (statusResponse 301)" by code_simp
  have s: "300 \<le> status (statusResponse 301)" "status (statusResponse 301) < 400"
    by (simp_all add: statusResponse_def)
  show ?thesis using redirects_rejected_on_both_paths [OF v f s] by simp
qed

text \<open>
  Claim C4 as stated, that the primary page fetch follows redirects, fails:
  \<open>moved.example\<close> answers 301 and the transport, had it been asked to follow, would
  have delivered the HTML of the target; \<open>scrapeWebsite\<close> fails instead.
\<close>

theorem scrapeWebsite_redirect_counterexample:
  "fetch siteWorld Manual ''https://moved.example/'' = Inr (statusResponse 301)
   \<and> fetch siteWorld Follow ''https://moved.example/'' = Inr (htmlResponse ''<html>moved</html>'')
   \<and> scrapeWebsite siteWorld ''https://moved.example''
     = Inl (newError ''Unable to access the website. Please check the URL and try again.'')"
  by code_simp


section \<open>Properties of \<open>findImportantPages\<close>\<close>

lemma setAdd_distinct: "distinct xs \<Longrightarrow> distinct (setAdd xs x)"
  by (simp add: setAdd_def)

lemma setAdd_length: "length (setAdd xs x) \<le> Suc (length xs)"
  by (simp add: setAdd_def)

lemma considerLink_inv:
  assumes "distinct acc" "length acc \<le> 10" "\<forall>u \<in> set acc. goodLink W baseOrigin u"
  shows "distinct (considerLink W baseUrl baseOrigin acc h)
         \<and> length (considerLink W baseUrl baseOrigin acc h) \<le> 10
         \<and> (\<forall>u \<in> set (considerLink W baseUrl baseOrigin acc h). goodLink W baseOrigin u)"
  using assms
  by (auto simp: considerLink_def Let_def setAdd_def goodLink_def split: option.splits)

lemma collect_inv:
  assumes "distinct acc" "length acc \<le> 10" "\<forall>u \<in> set acc. goodLink W baseOrigin u"
  shows "distinct (foldl (considerLink W baseUrl baseOrigin) acc hs)
         \<and> length (foldl (considerLink W baseUrl baseOrigin) acc hs) \<le> 10
         \<and> (\<forall>u \<in> set (foldl (considerLink W baseUrl baseOrigin) acc hs). goodLink W baseOrigin u)"
  using assms
proof (induction hs arbitrary: acc)
  case Nil
  then show ?case by simp
next
  case (Cons h hs)
  from considerLink_inv [OF Cons.prems, of baseUrl h]
  have "distinct (considerLink W baseUrl baseOrigin acc h)"
    "length (considerLink W baseUrl baseOrigin acc h) \<le> 10"
    "\<forall>u \<in> set (considerLink W baseUrl baseOrigin acc h). goodLink W baseOrigin u"
    by blast+
  from Cons.IH [OF this] show ?case by simp
qed

lemma findImportantPages_pages:
  assumes "findImportantPages W baseUrl homepageHtml = Inr pages"
  shows "length pages \<le> 5 \<and> distinct pages
         \<and> (\<exists>base. newURL W baseUrl = Some base
              \<and> (\<forall>u \<in> set pages. \<exists>p. newURL W u = Some p \<and> origin p = origin base
                     \<and> (\<exists>keyword \<in> set pageKeywords.
                           includes_str (toLowerCase (pathname p)) keyword)))"
proof -
  from assms obtain base where b: "newURL W baseUrl = Some base"
    and pages: "pages = take 5 (foldl (considerLink W baseUrl (origin base)) []
                         (anchorHrefs W homepageHtml))"
    by (auto simp: findImportantPages_def split: option.splits)
  let ?all = "foldl (considerLink W baseUrl (origin base)) [] (anchorHrefs W homepageHtml)"
  from collect_inv [of "[]" W "origin base" baseUrl "anchorHrefs W homepageHtml"]
  have d: "distinct ?all" and g: "\<forall>u \<in> set ?all. goodLink W (origin base) u"
    by simp_all
  have "length pages \<le> 5" by (simp add: pages)
  moreover have "distinct pages" using d by (simp add: pages)
  moreover have "\<forall>u \<in> set pages. \<exists>p. newURL W u = Some p \<and> origin p = origin base
                     \<and> (\<exists>keyword \<in> set pageKeywords.
                           includes_str (toLowerCase (pathname p)) keyword)"
  proof
    fix u assume "u \<in> set pages"
    then have "u \<in> set ?all" unfolding pages by (rule in_set_takeD)
    with g have "goodLink W (origin base) u" by blast
    then show "\<exists>p. newURL W u = Some p \<and> origin p = origin base
                     \<and> (\<exists>keyword \<in> set pageKeywords.
                           includes_str (toLowerCase (pathname p)) keyword)"
      by (auto simp: goodLink_def hasKeyword_def list_ex_iff split: option.splits)
  qed
  ultimately show ?thesis using b by blast
qed

text \<open>
  Claim C6. For every home page and base URL, \<open>findImportantPages\<close> either throws because
  the base URL itself does not parse, or returns a list of at most 5 URLs without
  duplicates, each of which parses to a URL with the origin of the base URL and a
  lower-cased path containing one of the fixed keywords, however many links, and links
  to other origins, the page has.
\<close>

theorem findImportantPages_bounded_same_origin:
  "(newURL W baseUrl = None
      \<and> findImportantPages W baseUrl homepageHtml = Inl (JsError ''TypeError'' ''Invalid URL''))
   \<or> (\<exists>base pages. newURL W baseUrl = Some base
         \<and> findImportantPages W baseUrl homepageHtml = Inr pages
         \<and> length pages \<le> 5 \<and> distinct pages
         \<and> (\<forall>u \<in> set pages. \<exists>p. newURL W u = Some p \<and> origin p = origin base
                \<and> (\<exists>keyword \<in> set pageKeywords.
                      includes_str (toLowerCase (pathname p)) keyword)))"
proof (cases "newURL W baseUrl")
  case None
  then show ?thesis by (simp add: findImportantPages_def)
next
  case (Some base)
  then obtain pages where p: "findImportantPages W baseUrl homepageHtml = Inr pages"
    by (auto simp: findImportantPages_def)
  from findImportantPages_pages [OF p] Some p show ?thesis by auto
qed

theorem findImportantPages_bounded_same_origin_witness:
  "findImportantPages siteWorld ''https://a.com'' ''<html>home</html>''
     = Inr [''https://a.com/about'', ''https://a.com/contact'']
   \<and> map_option origin (newURL siteWorld ''https://a.com/about'') = Some ''https://a.com''
   \<and> map_option origin (newURL siteWorld ''https://a.com/contact'') = Some ''https://a.com''"
proof -
  have e: "findImportantPages siteWorld ''https://a.com'' ''<html>home</html>''
     = Inr [''https://a.com/about'', ''https://a.com/contact'']" by code_simp
  have b: "newURL siteWorld ''https://a.com''
     = Some (mkURL ''https://a.com/'' ''https:'' ''a.com'' ''https://a.com'' ''/'')" by code_simp
  have o: "origin (mkURL ''https://a.com/'' ''https:'' ''a.com'' ''https://a.com'' ''/'') = ''https://a.com''"
    by (simp add: mkURL_def)
  from findImportantPages_bounded_same_origin [of siteWorld "''https://a.com''" "''<html>home</html>''"]
  have "\<forall>u \<in> set [''https://a.com/about'', ''https://a.com/contact''].
         \<exists>p. newURL siteWorld u = Some p \<and> origin p = ''https://a.com''"
    unfolding e b using o by auto
  then have "map_option origin (newURL siteWorld ''https://a.com/about'') = Some ''https://a.com''
   \<and> map_option origin (newURL siteWorld ''https://a.com/contact'') = Some ''https://a.com''"
    by auto
  with e show ?thesis by blast
qed

section \<open>Properties of the orchestrator\<close>

lemma status_after_update:
  assumes "analysis s = Some row"
  shows "\<exists>row'. analysis (updateWebsiteAnalysisStatus c st m s) = Some row'
           \<and> rowStatus row' = st
           \<and> errorMessage row' = (case m of None \<Rightarrow> None | Some t \<Rightarrow> if t = [] then None else Some t)"
  using assms by (simp add: updateWebsiteAnalysisStatus_def)

lemma analysis_after_upsert: "\<exists>row. analysis (upsertWebsiteAnalysis p s) = Some row"
  by (simp add: upsertWebsiteAnalysis_def split: option.splits)

lemma analysis_createAnalyzedPage: "analysis (createAnalyzedPage s u) = analysis s"
  by (simp add: createAnalyzedPage_def)

lemma analysis_savePages: "analysis (savePages s us) = analysis s"
proof -
  have "analysis (foldl createAnalyzedPage s xs) = analysis s" for xs
    by (induction xs arbitrary: s) (simp_all add: analysis_createAnalyzedPage)
  then show ?thesis by (simp add: savePages_def)
qed

lemma pages_createAnalyzedPage_fold:
  "analyzedPages (foldl createAnalyzedPage s xs) = analyzedPages s @ xs"
  by (induction xs arbitrary: s) (simp_all add: createAnalyzedPage_def)

lemma settled_failed:
  assumes "analysis s = Some row"
  shows "settled (Inl e) (updateWebsiteAnalysisStatus c ''failed'' (Some (message e)) s)"
  using assms by (simp add: settled_def updateWebsiteAnalysisStatus_def)

lemma settled_completed:
  assumes "analysis s = Some row"
  shows "settled (Inr ()) (updateWebsiteAnalysisStatus c ''completed'' None s)"
  using assms by (simp add: settled_def updateWebsiteAnalysisStatus_def)

lemma analyzeWebsiteTry_settled:
  assumes "analyzeWebsiteTry W url s = Inr s'"
  shows "settled (Inr ()) s'"
proof -
  from assms obtain s2 where s': "s' = updateWebsiteAnalysisStatus (now W) ''completed'' None s2"
    and "\<exists>row. analysis s2 = Some row"
    using analysis_after_upsert
    by (auto simp: analyzeWebsiteTry_def Let_def analysis_savePages split: sum.splits)
  then show ?thesis using settled_completed by blast
qed

lemma analyzeWebsitePagesTry_settled:
  assumes "analyzeWebsitePagesTry W urls m s = Inr s'"
  shows "settled (Inr ()) s'"
proof -
  from assms obtain s2 where s': "s' = updateWebsiteAnalysisStatus (now W) ''completed'' None s2"
    and "\<exists>row. analysis s2 = Some row"
    using analysis_after_upsert
    by (auto simp: analyzeWebsitePagesTry_def Let_def analysis_savePages split: sum.splits if_splits)
  then show ?thesis using settled_completed by blast
qed

lemma scrapeListed_all_fail:
  assumes "\<forall>u \<in> set urls. \<exists>e. scrapeWebsite W u = Inl e"
  shows "foldl (scrapeListed W) acc urls = acc"
  using assms by (induction urls arbitrary: acc) (auto simp: scrapeListed_def)


lemma scrape_success:
  assumes v: "validateUrl W url = Inr u"
    and f: "fetch W Manual (href u) = Inr r"
    and okr: "ok r"
    and ct: "contentType r = Some ct" "includes_str ct ''text/html''"
    and hdr: "\<not> exceeds (contentLength r) MAX_SIZE"
    and b: "body r = Some (map Chunk cs)"
    and small: "sum_list (map length cs) \<le> MAX_SIZE"
  shows "scrapeWebsite W url = Inr (extractText W (decode W (concat cs)))"
proof -
  have st: "\<not> 300 \<le> status r" using okr by (simp add: ok_def)
  from ct(2) have ne: "ct \<noteq> []" by auto
  have rl: "readLoop (map Chunk cs) [] 0 = Inr (cs, sum_list (map length cs))"
    using small readLoop_within [of 0 cs "[]"] by simp
  have "scrapeAttempt W u = Inr (extractText W (decode W (concat cs)))"
    using st okr hdr ct ne rl by (simp add: scrapeAttempt_def f b)
  then show ?thesis by (simp add: scrapeWebsite_def v)
qed

lemma htmlResponse_facts:
  "ok (htmlResponse b)" "contentType (htmlResponse b) = Some ''text/html; charset=utf-8''"
  "\<not> exceeds (contentLength (htmlResponse b)) MAX_SIZE"
  "body (htmlResponse b) = Some (map Chunk [b])"
  by (simp_all add: htmlResponse_def ok_def exceeds_def)

lemma html_content_type: "includes_str ''text/html; charset=utf-8'' ''text/html''"
  by (simp add: startsWith_def)

lemma siteWorld_text: "extractText siteWorld t = t" "decode siteWorld b = b"
  by (simp_all add: siteWorld_def quietWorld_def)

lemma site_home_validated:
  "validateUrl siteWorld ''https://a.com''
     = Inr (mkURL ''https://a.com/'' ''https:'' ''a.com'' ''https://a.com'' ''/'')"
  by code_simp

lemma site_home_fetch:
  "fetch siteWorld Manual (href (mkURL ''https://a.com/'' ''https:'' ''a.com'' ''https://a.com'' ''/''))
     = Inr (htmlResponse ''<html>home</html>'')"
  by code_simp

lemma site_home_scrape: "scrapeWebsite siteWorld ''https://a.com'' = Inr ''<html>home</html>''"
  using scrape_success [OF site_home_validated site_home_fetch htmlResponse_facts(1,2)
      html_content_type htmlResponse_facts(3,4)]
  by (simp add: siteWorld_text MAX_SIZE_def)

lemma site_home_html: "fetchPageHtml siteWorld ''https://a.com'' = Inr ''<html>home</html>''"
  using fetchPageHtml_reads_all [OF site_home_validated site_home_fetch htmlResponse_facts(1,3,4)]
  by (simp add: siteWorld_text)

lemma site_x_validated:
  "validateUrl siteWorld ''https://a.com/x''
     = Inr (mkURL ''https://a.com/x'' ''https:'' ''a.com'' ''https://a.com'' ''/x'')"
  by code_simp

lemma site_x_fetch:
  "fetch siteWorld Manual (href (mkURL ''https://a.com/x'' ''https:'' ''a.com'' ''https://a.com'' ''/x''))
     = Inr (htmlResponse ''<html>x</html>'')"
  by code_simp

lemma site_x_scrape: "scrapeWebsite siteWorld ''https://a.com/x'' = Inr ''<html>x</html>''"
  using scrape_success [OF site_x_validated site_x_fetch htmlResponse_facts(1,2)
      html_content_type htmlResponse_facts(3,4)]
  by (simp add: siteWorld_text MAX_SIZE_def)

lemma site_about_scrape:
  "scrapeWebsite siteWorld ''https://a.com/about'' = Inl (newError ''Website request timed out'')"
  by code_simp

lemma site_contact_scrape:
  "scrapeWebsite siteWorld ''https://a.com/contact''
     = Inl (newError ''Unable to access the website. Please check the URL and try again.'')"
  by code_simp

lemma site_contact_attempt:
  "scrapeAttempt siteWorld
       (mkURL ''https://a.com/contact'' ''https:'' ''a.com'' ''https://a.com'' ''/contact'')
     = Inl (newError ''Failed to fetch website: HTTP 404'')"
  by code_simp

lemma site_pages:
  "findImportantPages siteWorld ''https://a.com'' ''<html>home</html>''
     = Inr [''https://a.com/about'', ''https://a.com/contact'']"
  by code_simp

lemma site_summary: "analyzeWithOpenAI siteWorld t = Inr (''summary'' @ t)"
  "jsonStringify siteWorld j = j" "now siteWorld = 0"
  by (simp_all add: siteWorld_def quietWorld_def)

lemma site_unique:
  "arrayFromSet [normalizePage ''https://a.com'', normalizePage ''https://a.com/about'',
                 normalizePage ''https://a.com/contact'']
     = [''https://a.com'', ''https://a.com/about'', ''https://a.com/contact'']"
  by code_simp

lemma analyzeWebsiteTry_pages:
  assumes "analyzeWebsiteTry W url s = Inr s'"
  shows "\<exists>html pages. fetchPageHtml W url = Inr html
           \<and> findImportantPages W url html = Inr pages
           \<and> analyzedPages s' = analyzedPages s @ arrayFromSet (map normalizePage (url # pages))"
proof -
  have up: "analyzedPages (updateWebsiteAnalysisStatus c st m t) = analyzedPages t" for c st m t
    by (simp add: updateWebsiteAnalysisStatus_def split: option.splits)
  have us: "analyzedPages (upsertWebsiteAnalysis p t) = analyzedPages t" for p t
    by (simp add: upsertWebsiteAnalysis_def split: option.splits)
  from assms show ?thesis
    by (auto simp: analyzeWebsiteTry_def Let_def savePages_def pages_createAnalyzedPage_fold up us
             split: sum.splits)
qed

text \<open>
  Claim C5. In the scenario of the claim (the home page of \<open>a.com\<close> is scraped, the
  discovered page \<open>/about\<close> times out and the discovered page \<open>/contact\<close> answers 404)
  \<open>analyzeWebsite\<close> does finish with status \<open>completed\<close>, but the log of analyzed pages
  then holds three entries, the home page and the two pages whose scrape failed, not
  the home page alone: step 5 saves \<open>[websiteUrl, ...additionalPages]\<close>, every discovered
  page, whether or not it was scraped (\<open>analyzeWebsiteTry_pages\<close>).
\<close>

theorem analyzeWebsite_records_failed_pages:
  "scrapeWebsite siteWorld ''https://a.com'' = Inr ''<html>home</html>''
   \<and> findImportantPages siteWorld ''https://a.com'' ''<html>home</html>''
       = Inr [''https://a.com/about'', ''https://a.com/contact'']
   \<and> scrapeWebsite siteWorld ''https://a.com/about'' = Inl (newError ''Website request timed out'')
   \<and> scrapeAttempt siteWorld
         (mkURL ''https://a.com/contact'' ''https:'' ''a.com'' ''https://a.com'' ''/contact'')
       = Inl (newError ''Failed to fetch website: HTTP 404'')
   \<and> fst (analyzeWebsite siteWorld ''https://a.com'' pendingStore) = Inr ()
   \<and> map_option rowStatus (analysis (snd (analyzeWebsite siteWorld ''https://a.com'' pendingStore)))
       = Some ''completed''
   \<and> analyzedPages (snd (analyzeWebsite siteWorld ''https://a.com'' pendingStore))
       = [''https://a.com'', ''https://a.com/about'', ''https://a.com/contact'']"
proof -
  have run: "analyzeWebsiteTry siteWorld ''https://a.com''
               (updateWebsiteAnalysisStatus 0 ''analyzing'' None pendingStore)
     = Inr \<lparr>analysis = Some \<lparr>websiteUrl = ''https://a.com'', rowStatus = ''completed'',
              analyzedContent = Some (''summaryHOMEPAGE CONTENT:'' @ [CHR 0x0A] @ ''<html>home</html>''
                                       @ [CHR 0x0A, CHR 0x0A]),
              errorMessage = None, lastAnalyzedAt = Some 0\<rparr>,
            analyzedPages = [''https://a.com'', ''https://a.com/about'', ''https://a.com/contact'']\<rparr>"
    by (simp add: analyzeWebsiteTry_def site_home_scrape site_home_html site_pages
        scrapeAdditional_def site_about_scrape site_contact_scrape site_summary Let_def
        savePages_def site_unique updateWebsiteAnalysisStatus_def upsertWebsiteAnalysis_def
        createAnalyzedPage_def pendingStore_def)
  then have "analyzeWebsite siteWorld ''https://a.com'' pendingStore
     = (Inr (), \<lparr>analysis = Some \<lparr>websiteUrl = ''https://a.com'', rowStatus = ''completed'',
              analyzedContent = Some (''summaryHOMEPAGE CONTENT:'' @ [CHR 0x0A] @ ''<html>home</html>''
                                       @ [CHR 0x0A, CHR 0x0A]),
              errorMessage = None, lastAnalyzedAt = Some 0\<rparr>,
            analyzedPages = [''https://a.com'', ''https://a.com/about'', ''https://a.com/contact'']\<rparr>)"
    by (simp add: analyzeWebsite_def site_summary)
  then show ?thesis
    by (simp add: site_home_scrape site_pages site_about_scrape site_contact_attempt)
qed


lemma update_status_content:
  "map_option analyzedContent (analysis (updateWebsiteAnalysisStatus c st m s))
     = map_option analyzedContent (analysis s)"
  by (simp add: updateWebsiteAnalysisStatus_def split: option.splits)

lemma existingData_replace: "existingData W False s = None"
  by (simp add: existingData_def)

lemma existingData_no_profile:
  assumes "analysis s0 = None
           \<or> (\<exists>row. analysis s0 = Some row
                \<and> (analyzedContent row = None \<or> analyzedContent row = Some []))"
  shows "existingData W True (updateWebsiteAnalysisStatus c st m s0) = None"
  using assms
  by (auto simp: existingData_def updateWebsiteAnalysisStatus_def split: option.splits)

lemma resolveAll_merge_update: "resolveAll (W\<lparr>mergeAnalysisData := g\<rparr>) h = resolveAll W h"
  by (simp add: resolveAll_def)

lemma dnsCheck_merge_update: "dnsCheck (W\<lparr>mergeAnalysisData := g\<rparr>) h = dnsCheck W h"
  by (simp add: dnsCheck_def resolveAll_merge_update)

lemma validateUrl_merge_update:
  "validateUrl (W\<lparr>mergeAnalysisData := g\<rparr>) url = validateUrl W url"
  by (simp add: validateUrl_def dnsCheck_merge_update Let_def split: option.splits)

lemma scrapeAttempt_merge_update:
  "scrapeAttempt (W\<lparr>mergeAnalysisData := g\<rparr>) u = scrapeAttempt W u"
  by (simp add: scrapeAttempt_def split: sum.splits option.splits prod.splits)

lemma scrapeWebsite_merge_update:
  "scrapeWebsite (W\<lparr>mergeAnalysisData := g\<rparr>) url = scrapeWebsite W url"
  unfolding scrapeWebsite_def validateUrl_merge_update scrapeAttempt_merge_update by (rule refl)

lemma scrapeListed_merge_update:
  "scrapeListed (W\<lparr>mergeAnalysisData := g\<rparr>) c u = scrapeListed W c u"
  unfolding scrapeListed_def scrapeWebsite_merge_update
  by (simp split: sum.splits option.splits)

lemma resolveAll_model_update: "resolveAll (W\<lparr>analyzeWithOpenAI := g\<rparr>) h = resolveAll W h"
  by (simp add: resolveAll_def)

lemma dnsCheck_model_update: "dnsCheck (W\<lparr>analyzeWithOpenAI := g\<rparr>) h = dnsCheck W h"
  by (simp add: dnsCheck_def resolveAll_model_update)

lemma validateUrl_model_update:
  "validateUrl (W\<lparr>analyzeWithOpenAI := g\<rparr>) url = validateUrl W url"
  by (simp add: validateUrl_def dnsCheck_model_update Let_def split: option.splits)

lemma scrapeAttempt_model_update:
  "scrapeAttempt (W\<lparr>analyzeWithOpenAI := g\<rparr>) u = scrapeAttempt W u"
  by (simp add: scrapeAttempt_def split: sum.splits option.splits prod.splits)

lemma scrapeWebsite_model_update:
  "scrapeWebsite (W\<lparr>analyzeWithOpenAI := g\<rparr>) url = scrapeWebsite W url"
  unfolding scrapeWebsite_def validateUrl_model_update scrapeAttempt_model_update by (rule refl)

lemma scrapeListed_model_update:
  "scrapeListed (W\<lparr>analyzeWithOpenAI := g\<rparr>) c u = scrapeListed W c u"
  unfolding scrapeListed_def scrapeWebsite_model_update
  by (simp split: sum.splits option.splits)

lemma combined_merge_update:
  "foldl (scrapeListed (W\<lparr>mergeAnalysisData := g\<rparr>)) c us = foldl (scrapeListed W) c us"
  by (induction us arbitrary: c) (simp_all add: scrapeListed_merge_update)

lemma existingData_merge_update:
  "existingData (W\<lparr>mergeAnalysisData := g\<rparr>) m s = existingData W m s"
  by (simp add: existingData_def split: option.splits)

lemma pagesTry_without_existing:
  assumes "existingData W m s = None"
  shows "analyzeWebsitePagesTry W pageUrls m s
     = (if trim (foldl (scrapeListed W) [] pageUrls) = []
        then Inl (newError ''Failed to scrape any pages'')
        else case analyzeWithOpenAI W (foldl (scrapeListed W) [] pageUrls) of
               Inl e \<Rightarrow> Inl e
             | Inr analyzed \<Rightarrow>
                 Inr (updateWebsiteAnalysisStatus (now W) ''completed'' None
                        (savePages
                           (upsertWebsiteAnalysis
                              \<lparr>patchUrl = (case pageUrls of [] \<Rightarrow> None | u # _ \<Rightarrow> Some u),
                               patchStatus = Some ''completed'',
                               patchContent = Some (jsonStringify W analyzed)\<rparr> s)
                           pageUrls)))"
  unfolding analyzeWebsitePagesTry_def assms by (simp add: Let_def split: sum.splits)

lemma completed_row:
  "\<exists>row. analysis (updateWebsiteAnalysisStatus c ''completed'' None
                     (savePages (upsertWebsiteAnalysis
                                   \<lparr>patchUrl = pu, patchStatus = Some ''completed'',
                                    patchContent = Some content\<rparr> s) us)) = Some row
         \<and> rowStatus row = ''completed'' \<and> analyzedContent row = Some content
         \<and> errorMessage row = None \<and> lastAnalyzedAt row = Some c"
  by (simp add: updateWebsiteAnalysisStatus_def analysis_savePages upsertWebsiteAnalysis_def
      split: option.splits)

text \<open>
  Claim C8. When the account has no record, or a record with no stored profile (absent
  or empty), \<open>analyzeWebsitePages\<close> in append mode gives the same outcome and the same
  store as the same call in replace mode, and \<open>mergeAnalysisData\<close> plays no part in it:
  the run is the same whatever that function is. If some page was scraped and
  \<open>analyzeWithOpenAI\<close> answers the scraped text with a profile, the run succeeds and the
  record ends \<open>completed\<close> holding that profile; if \<open>analyzeWithOpenAI\<close> throws, the run
  fails with that error; if nothing was scraped it fails with "Failed to scrape any
  pages".
\<close>

theorem append_without_profile_is_replace:
  assumes "analysis s0 = None
           \<or> (\<exists>row. analysis s0 = Some row
                \<and> (analyzedContent row = None \<or> analyzedContent row = Some []))"
  shows "analyzeWebsitePages W pageUrls True s0 = analyzeWebsitePages W pageUrls False s0
         \<and> analyzeWebsitePages (W\<lparr>mergeAnalysisData := g\<rparr>) pageUrls True s0
             = analyzeWebsitePages W pageUrls True s0
         \<and> (trim (foldl (scrapeListed W) [] pageUrls) \<noteq> []
              \<and> analyzeWithOpenAI W (foldl (scrapeListed W) [] pageUrls) = Inr profile
            \<longrightarrow> fst (analyzeWebsitePages W pageUrls True s0) = Inr ()
                \<and> (\<exists>row. analysis (snd (analyzeWebsitePages W pageUrls True s0)) = Some row
                      \<and> rowStatus row = ''completed''
                      \<and> analyzedContent row = Some (jsonStringify W profile)
                      \<and> errorMessage row = None))
         \<and> (trim (foldl (scrapeListed W) [] pageUrls) \<noteq> []
              \<and> analyzeWithOpenAI W (foldl (scrapeListed W) [] pageUrls) = Inl e
            \<longrightarrow> analyzeWebsitePages W pageUrls True s0
                  = (Inl e, updateWebsiteAnalysisStatus (now W) ''failed'' (Some (message e))
                              (updateWebsiteAnalysisStatus (now W) ''analyzing'' None s0)))
         \<and> (trim (foldl (scrapeListed W) [] pageUrls) = []
            \<longrightarrow> fst (analyzeWebsitePages W pageUrls True s0)
                  = Inl (newError ''Failed to scrape any pages''))"
proof -
  let ?s = "updateWebsiteAnalysisStatus (now W) ''analyzing'' None s0"
  let ?c = "foldl (scrapeListed W) [] pageUrls"
  have n: "existingData W True ?s = None" by (rule existingData_no_profile [OF assms])
  have eq: "existingData W True ?s = existingData W False ?s"
    using n by (simp add: existingData_replace)
  have t: "analyzeWebsitePagesTry W pageUrls True ?s = analyzeWebsitePagesTry W pageUrls False ?s"
    unfolding analyzeWebsitePagesTry_def eq by (rule refl)
  have 1: "analyzeWebsitePages W pageUrls True s0 = analyzeWebsitePages W pageUrls False s0"
    using t by (simp add: analyzeWebsitePages_def)
  let ?W = "W\<lparr>mergeAnalysisData := g\<rparr>"
  have n': "existingData ?W True ?s = None" using n by (simp add: existingData_merge_update)
  have "analyzeWebsitePagesTry ?W pageUrls True ?s = analyzeWebsitePagesTry W pageUrls True ?s"
    unfolding pagesTry_without_existing [OF n] pagesTry_without_existing [OF n']
    by (simp add: combined_merge_update split: sum.splits)
  then have 2: "analyzeWebsitePages ?W pageUrls True s0 = analyzeWebsitePages W pageUrls True s0"
    by (simp add: analyzeWebsitePages_def Let_def split: sum.splits)
  have 3: "fst (analyzeWebsitePages W pageUrls True s0) = Inr ()
                \<and> (\<exists>row. analysis (snd (analyzeWebsitePages W pageUrls True s0)) = Some row
                      \<and> rowStatus row = ''completed''
                      \<and> analyzedContent row = Some (jsonStringify W profile)
                      \<and> errorMessage row = None)"
    if "trim ?c \<noteq> []" "analyzeWithOpenAI W ?c = Inr profile"
  proof -
    have r: "analyzeWebsitePages W pageUrls True s0
       = (Inr (), updateWebsiteAnalysisStatus (now W) ''completed'' None
                        (savePages
                           (upsertWebsiteAnalysis
                              \<lparr>patchUrl = (case pageUrls of [] \<Rightarrow> None | u # _ \<Rightarrow> Some u),
                               patchStatus = Some ''completed'',
                               patchContent = Some (jsonStringify W profile)\<rparr> ?s)
                           pageUrls))"
      using that by (simp add: analyzeWebsitePages_def pagesTry_without_existing [OF n])
    from completed_row [of "now W" "case pageUrls of [] \<Rightarrow> None | u # _ \<Rightarrow> Some u"
        "jsonStringify W profile" ?s pageUrls]
    show ?thesis unfolding r by auto
  qed
  have 4: "analyzeWebsitePages W pageUrls True s0
                  = (Inl e, updateWebsiteAnalysisStatus (now W) ''failed'' (Some (message e)) ?s)"
    if "trim ?c \<noteq> []" "analyzeWithOpenAI W ?c = Inl e"
    using that by (simp add: analyzeWebsitePages_def pagesTry_without_existing [OF n])
  have 5: "fst (analyzeWebsitePages W pageUrls True s0) = Inl (newError ''Failed to scrape any pages'')"
    if "trim ?c = []"
    using that by (simp add: analyzeWebsitePages_def pagesTry_without_existing [OF n])
  from 1 2 3 4 5 show ?thesis by blast
qed

lemma site_x_url:
  "newURL siteWorld ''https://a.com/x''
     = Some (mkURL ''https://a.com/x'' ''https:'' ''a.com'' ''https://a.com'' ''/x'')"
  by code_simp

lemma site_x_name: "toUpperCase (pageNameOf ''/x'') = ''X''"
  by code_simp

lemma site_x_combined:
  "scrapeListed siteWorld [] ''https://a.com/x''
     = ''X PAGE (https://a.com/x):'' @ [CHR 0x0A] @ ''<html>x</html>'' @ [CHR 0x0A, CHR 0x0A]"
  by (simp add: scrapeListed_def site_x_scrape site_x_url site_x_name mkURL_def)

lemma site_x_trim:
  "trim (''X PAGE (https://a.com/x):'' @ [CHR 0x0A] @ ''<html>x</html>'' @ [CHR 0x0A, CHR 0x0A]) \<noteq> []"
  by code_simp

lemma site_x_run:
  "fst (analyzeWebsitePages siteWorld [''https://a.com/x''] True pendingStore) = Inr ()"
proof -
  have "existingData siteWorld True (updateWebsiteAnalysisStatus 0 ''analyzing'' None pendingStore) = None"
    by code_simp
  then have "\<exists>s'. analyzeWebsitePagesTry siteWorld [''https://a.com/x''] True
                    (updateWebsiteAnalysisStatus 0 ''analyzing'' None pendingStore) = Inr s'"
    using site_x_trim
    by (simp add: analyzeWebsitePagesTry_def site_x_combined site_summary Let_def)
  then show ?thesis by (auto simp: analyzeWebsitePages_def site_summary)
qed

theorem append_without_profile_is_replace_witness:
  "analyzeWebsitePages siteWorld [''https://a.com/x''] True emptyStore
     = analyzeWebsitePages siteWorld [''https://a.com/x''] False emptyStore
   \<and> analyzeWebsitePages siteWorld [''https://a.com/x''] True pendingStore
     = analyzeWebsitePages siteWorld [''https://a.com/x''] False pendingStore
   \<and> fst (analyzeWebsitePages siteWorld [''https://a.com/x''] True pendingStore) = Inr ()
   \<and> map_option rowStatus
         (analysis (snd (analyzeWebsitePages siteWorld [''https://a.com/x''] True pendingStore)))
       = Some ''completed''
   \<and> map_option analyzedContent
         (analysis (snd (analyzeWebsitePages siteWorld [''https://a.com/x''] True pendingStore)))
       = Some (Some (''summary'' @ scrapeListed siteWorld [] ''https://a.com/x''))
   \<and> map_option analyzedContent
         (analysis (snd (analyzeWebsitePages siteWorld [''https://a.com/x''] True emptyStore)))
       = Some (Some (''summary'' @ scrapeListed siteWorld [] ''https://a.com/x''))
   \<and> fst (analyzeWebsitePages siteWorld [''https://a.com/about'', ''https://a.com/contact''] True
             emptyStore) = Inl (newError ''Failed to scrape any pages'')
   \<and> fst (analyzeWebsitePages modelDownWorld [''https://a.com/x''] True pendingStore)
       = Inl (newError ''OpenAI returned empty response'')
   \<and> map_option rowStatus
         (analysis (snd (analyzeWebsitePages modelDownWorld [''https://a.com/x''] True pendingStore)))
       = Some ''failed''"
proof -
  let ?c = "foldl (scrapeListed siteWorld) [] [''https://a.com/x'']"
  have 1: "analysis emptyStore = None
           \<or> (\<exists>row. analysis emptyStore = Some row
                \<and> (analyzedContent row = None \<or> analyzedContent row = Some []))"
    by (simp add: emptyStore_def)
  have 2: "analysis pendingStore = None
           \<or> (\<exists>row. analysis pendingStore = Some row
                \<and> (analyzedContent row = None \<or> analyzedContent row = Some []))"
    by (simp add: pendingStore_def)
  have c: "?c = scrapeListed siteWorld [] ''https://a.com/x''" by simp
  have h1: "trim ?c \<noteq> []" unfolding c using site_x_trim by (simp add: site_x_combined)
  have h2: "analyzeWithOpenAI siteWorld ?c
              = Inr (''summary'' @ scrapeListed siteWorld [] ''https://a.com/x'')"
    unfolding c by (rule site_summary(1))
  note t1 = append_without_profile_is_replace
    [OF 1, where W = siteWorld and pageUrls = "[''https://a.com/x'']"
       and profile = "''summary'' @ scrapeListed siteWorld [] ''https://a.com/x''"]
  note t2 = append_without_profile_is_replace
    [OF 2, where W = siteWorld and pageUrls = "[''https://a.com/x'']"
       and profile = "''summary'' @ scrapeListed siteWorld [] ''https://a.com/x''"]
  from t1 have e1: "analyzeWebsitePages siteWorld [''https://a.com/x''] True emptyStore
     = analyzeWebsitePages siteWorld [''https://a.com/x''] False emptyStore" by blast
  from t2 have e2: "analyzeWebsitePages siteWorld [''https://a.com/x''] True pendingStore
     = analyzeWebsitePages siteWorld [''https://a.com/x''] False pendingStore" by blast
  from t1 h1 h2
  have r1: "\<exists>row. analysis (snd (analyzeWebsitePages siteWorld [''https://a.com/x''] True emptyStore))
                   = Some row
              \<and> analyzedContent row
                   = Some (jsonStringify siteWorld
                             (''summary'' @ scrapeListed siteWorld [] ''https://a.com/x''))"
    by blast
  from t2 h1 h2
  have r2: "fst (analyzeWebsitePages siteWorld [''https://a.com/x''] True pendingStore) = Inr ()
      \<and> (\<exists>row. analysis (snd (analyzeWebsitePages siteWorld [''https://a.com/x''] True pendingStore))
                   = Some row
              \<and> rowStatus row = ''completed''
              \<and> analyzedContent row
                   = Some (jsonStringify siteWorld
                             (''summary'' @ scrapeListed siteWorld [] ''https://a.com/x'')))"
    by blast
  from r1 have c1: "map_option analyzedContent
         (analysis (snd (analyzeWebsitePages siteWorld [''https://a.com/x''] True emptyStore)))
       = Some (Some (''summary'' @ scrapeListed siteWorld [] ''https://a.com/x''))"
    by (auto simp: site_summary simp del: append.simps)
  from r2 have c2: "fst (analyzeWebsitePages siteWorld [''https://a.com/x''] True pendingStore) = Inr ()
   \<and> map_option rowStatus
         (analysis (snd (analyzeWebsitePages siteWorld [''https://a.com/x''] True pendingStore)))
       = Some ''completed''
   \<and> map_option analyzedContent
         (analysis (snd (analyzeWebsitePages siteWorld [''https://a.com/x''] True pendingStore)))
       = Some (Some (''summary'' @ scrapeListed siteWorld [] ''https://a.com/x''))"
    by (auto simp: site_summary simp del: append.simps)
  have f: "\<forall>u \<in> set [''https://a.com/about'', ''https://a.com/contact''].
             \<exists>e. scrapeWebsite siteWorld u = Inl e"
    by (simp add: site_about_scrape site_contact_scrape)
  have h3: "trim (foldl (scrapeListed siteWorld) [] [''https://a.com/about'', ''https://a.com/contact''])
              = []"
    unfolding scrapeListed_all_fail [OF f] by (simp add: trim_def)
  note t3 = append_without_profile_is_replace
    [OF 1, where W = siteWorld and pageUrls = "[''https://a.com/about'', ''https://a.com/contact'']"]
  from t3 h3
  have c3: "fst (analyzeWebsitePages siteWorld [''https://a.com/about'', ''https://a.com/contact'']
                   True emptyStore) = Inl (newError ''Failed to scrape any pages'')"
    by blast
  let ?d = "foldl (scrapeListed modelDownWorld) [] [''https://a.com/x'']"
  have d: "?d = scrapeListed siteWorld [] ''https://a.com/x''"
    by (simp add: modelDownWorld_def scrapeListed_model_update)
  have h4: "trim ?d \<noteq> []" unfolding d using site_x_trim by (simp add: site_x_combined)
  have h5: "analyzeWithOpenAI modelDownWorld ?d = Inl (newError ''OpenAI returned empty response'')"
    by (simp add: modelDownWorld_def)
  note t4 = append_without_profile_is_replace
    [OF 2, where W = modelDownWorld and pageUrls = "[''https://a.com/x'']"
       and e = "newError ''OpenAI returned empty response''"]
  from t4 h4 h5
  have r4: "analyzeWebsitePages modelDownWorld [''https://a.com/x''] True pendingStore
      = (Inl (newError ''OpenAI returned empty response''),
         updateWebsiteAnalysisStatus (now modelDownWorld) ''failed''
           (Some (message (newError ''OpenAI returned empty response'')))
           (updateWebsiteAnalysisStatus (now modelDownWorld) ''analyzing'' None pendingStore))"
    by blast
  have c4: "fst (analyzeWebsitePages modelDownWorld [''https://a.com/x''] True pendingStore)
       = Inl (newError ''OpenAI returned empty response'')
   \<and> map_option rowStatus
         (analysis (snd (analyzeWebsitePages modelDownWorld [''https://a.com/x''] True pendingStore)))
       = Some ''failed''"
    unfolding r4 by (simp add: updateWebsiteAnalysisStatus_def pendingStore_def)
  from e1 e2 c1 c2 c3 c4 show ?thesis by blast
qed

lemma upsert_content:
  "map_option analyzedContent
     (analysis (upsertWebsiteAnalysis \<lparr>patchUrl = pu, patchStatus = ps, patchContent = Some c\<rparr> s))
   = Some (Some c)"
  by (simp add: upsertWebsiteAnalysis_def split: option.splits)

lemma append_with_profile_merges:
  "map_option analyzedContent
     (analysis (snd (analyzeWebsitePages siteWorld [''https://a.com/x''] True profileStore)))
   = Some (Some (''old'' @ ''merged'' @ scrapeListed siteWorld [] ''https://a.com/x''))
   \<and> map_option analyzedContent
     (analysis (snd (analyzeWebsitePages siteWorld [''https://a.com/x''] False profileStore)))
   = Some (Some (''summary'' @ scrapeListed siteWorld [] ''https://a.com/x''))"
proof -
  let ?s = "updateWebsiteAnalysisStatus 0 ''analyzing'' None profileStore"
  let ?c = "scrapeListed siteWorld [] ''https://a.com/x''"
  have e: "existingData siteWorld True ?s = Some ''old''"
    by code_simp
  have m: "mergeAnalysisData siteWorld old t = Inr (old @ ''merged'' @ t)" for old t
    by (simp add: siteWorld_def)
  have t: "trim ?c \<noteq> []" using site_x_trim by (simp add: site_x_combined)
  have 1: "analyzeWebsitePagesTry siteWorld [''https://a.com/x''] True ?s
     = Inr (updateWebsiteAnalysisStatus 0 ''completed'' None
              (savePages (upsertWebsiteAnalysis
                            \<lparr>patchUrl = Some ''https://a.com/x'', patchStatus = Some ''completed'',
                             patchContent = Some (''old'' @ ''merged'' @ ?c)\<rparr> ?s)
                 [''https://a.com/x'']))"
    using t by (simp add: analyzeWebsitePagesTry_def e m site_summary Let_def)
  have 2: "analyzeWebsitePagesTry siteWorld [''https://a.com/x''] False ?s
     = Inr (updateWebsiteAnalysisStatus 0 ''completed'' None
              (savePages (upsertWebsiteAnalysis
                            \<lparr>patchUrl = Some ''https://a.com/x'', patchStatus = Some ''completed'',
                             patchContent = Some (''summary'' @ ?c)\<rparr> ?s)
                 [''https://a.com/x'']))"
    using t by (simp add: analyzeWebsitePagesTry_def existingData_replace site_summary Let_def)
  show ?thesis
    by (simp add: analyzeWebsitePages_def site_summary 1 2 update_status_content
        analysis_savePages upsert_content del: append.simps)
qed

text \<open>
  When the account's record exists at the start of a run and the storage calls succeed,
  both entry points leave it settled: at \<open>completed\<close> after a success, at \<open>failed\<close> with the
  error's message after a failure (\<open>errorMessage || null\<close> stores an empty message as no
  message), never at \<open>analyzing\<close>.
\<close>

lemma run_leaves_record_settled:
  assumes "analysis s0 = Some row0"
  shows "settled (fst (analyzeWebsite W url s0)) (snd (analyzeWebsite W url s0))
         \<and> settled (fst (analyzeWebsitePages W pageUrls appendMode s0))
                    (snd (analyzeWebsitePages W pageUrls appendMode s0))
         \<and> ((\<forall>u \<in> set pageUrls. \<exists>e. scrapeWebsite W u = Inl e)
              \<longrightarrow> fst (analyzeWebsitePages W pageUrls appendMode s0)
                    = Inl (newError ''Failed to scrape any pages''))"
proof -
  let ?s = "updateWebsiteAnalysisStatus (now W) ''analyzing'' None s0"
  from status_after_update [OF assms] obtain row where row: "analysis ?s = Some row" by blast
  have 1: "settled (fst (analyzeWebsite W url s0)) (snd (analyzeWebsite W url s0))"
  proof (cases "analyzeWebsiteTry W url ?s")
    case (Inl e)
    then show ?thesis using settled_failed [OF row] by (simp add: analyzeWebsite_def)
  next
    case (Inr s')
    then show ?thesis using analyzeWebsiteTry_settled [OF Inr] by (simp add: analyzeWebsite_def)
  qed
  have 2: "settled (fst (analyzeWebsitePages W pageUrls appendMode s0))
                    (snd (analyzeWebsitePages W pageUrls appendMode s0))"
  proof (cases "analyzeWebsitePagesTry W pageUrls appendMode ?s")
    case (Inl e)
    then show ?thesis using settled_failed [OF row] by (simp add: analyzeWebsitePages_def)
  next
    case (Inr s')
    then show ?thesis using analyzeWebsitePagesTry_settled [OF Inr]
      by (simp add: analyzeWebsitePages_def)
  qed
  have 3: "fst (analyzeWebsitePages W pageUrls appendMode s0)
             = Inl (newError ''Failed to scrape any pages'')"
    if "\<forall>u \<in> set pageUrls. \<exists>e. scrapeWebsite W u = Inl e"
  proof -
    from scrapeListed_all_fail [OF that, of "[]"]
    have "analyzeWebsitePagesTry W pageUrls appendMode ?s = Inl (newError ''Failed to scrape any pages'')"
      by (simp add: analyzeWebsitePagesTry_def trim_def)
    then show ?thesis by (simp add: analyzeWebsitePages_def)
  qed
  from 1 2 3 show ?thesis by blast
qed

lemma run_leaves_record_settled_examples:
  "fst (analyzeWebsitePages siteWorld [''https://a.com/about'', ''https://a.com/contact''] False
          pendingStore) = Inl (newError ''Failed to scrape any pages'')
   \<and> map_option rowStatus
        (analysis (snd (analyzeWebsitePages siteWorld
                          [''https://a.com/about'', ''https://a.com/contact''] False pendingStore)))
       = Some ''failed''
   \<and> map_option errorMessage
        (analysis (snd (analyzeWebsitePages siteWorld
                          [''https://a.com/about'', ''https://a.com/contact''] False pendingStore)))
       = Some (Some ''Failed to scrape any pages'')
   \<and> settled (fst (analyzeWebsite siteWorld ''https://a.com'' pendingStore))
              (snd (analyzeWebsite siteWorld ''https://a.com'' pendingStore))"
proof -
  have r: "analysis pendingStore
             = Some \<lparr>websiteUrl = ''https://a.com'', rowStatus = ''pending'',
                      analyzedContent = None, errorMessage = None, lastAnalyzedAt = None\<rparr>"
    by (simp add: pendingStore_def)
  have f: "\<forall>u \<in> set [''https://a.com/about'', ''https://a.com/contact''].
             \<exists>e. scrapeWebsite siteWorld u = Inl e"
    by (simp add: site_about_scrape site_contact_scrape)
  note t = run_leaves_record_settled
    [OF r, of siteWorld "''https://a.com''" "[''https://a.com/about'', ''https://a.com/contact'']" False]
  from t f have o: "fst (analyzeWebsitePages siteWorld [''https://a.com/about'', ''https://a.com/contact'']
                           False pendingStore) = Inl (newError ''Failed to scrape any pages'')"
    by blast
  from t have "settled (fst (analyzeWebsitePages siteWorld
                          [''https://a.com/about'', ''https://a.com/contact''] False pendingStore))
                       (snd (analyzeWebsitePages siteWorld
                          [''https://a.com/about'', ''https://a.com/contact''] False pendingStore))"
    by blast
  then have "map_option rowStatus
        (analysis (snd (analyzeWebsitePages siteWorld
                          [''https://a.com/about'', ''https://a.com/contact''] False pendingStore)))
       = Some ''failed''
   \<and> map_option errorMessage
        (analysis (snd (analyzeWebsitePages siteWorld
                          [''https://a.com/about'', ''https://a.com/contact''] False pendingStore)))
       = Some (Some ''Failed to scrape any pages'')"
    unfolding o by (auto simp: settled_def newError_def split: option.splits)
  with o t show ?thesis by blast
qed

lemma update_status_no_row:
  "analysis s = None \<Longrightarrow> updateWebsiteAnalysisStatus c st m s = s"
  by (simp add: updateWebsiteAnalysisStatus_def)

lemma analyzeWebsite_home_failure:
  assumes "scrapeWebsite W url = Inl e"
  shows "analyzeWebsite W url s0
           = (Inl e, updateWebsiteAnalysisStatus (now W) ''failed'' (Some (message e))
                       (updateWebsiteAnalysisStatus (now W) ''analyzing'' None s0))"
  using assms by (simp add: analyzeWebsite_def analyzeWebsiteTry_def)

lemma analyzeWebsitePages_all_fail:
  assumes "\<forall>u \<in> set pageUrls. \<exists>e. scrapeWebsite W u = Inl e"
  shows "analyzeWebsitePages W pageUrls appendMode s0
           = (Inl (newError ''Failed to scrape any pages''),
              updateWebsiteAnalysisStatus (now W) ''failed'' (Some ''Failed to scrape any pages'')
                (updateWebsiteAnalysisStatus (now W) ''analyzing'' None s0))"
proof -
  from scrapeListed_all_fail [OF assms, of "[]"]
  have "analyzeWebsitePagesTry W pageUrls appendMode
          (updateWebsiteAnalysisStatus (now W) ''analyzing'' None s0)
        = Inl (newError ''Failed to scrape any pages'')"
    by (simp add: analyzeWebsitePagesTry_def trim_def)
  then show ?thesis by (simp add: analyzeWebsitePages_def newError_def)
qed

text \<open>
  Claim C9. A failed run does not always leave a \<open>failed\<close> status behind. The \<open>catch\<close>
  block records the failure with \<open>updateWebsiteAnalysisStatus\<close>, an \<open>UPDATE\<close> of the
  account's row, whereas the success path writes with \<open>upsertWebsiteAnalysis\<close>, which
  creates the row when it is missing. When a run starts without a record (neither
  entry point creates one) and the home page times out, or none of the listed pages can
  be scraped, the run throws and the store is left exactly as it was: no record, no
  \<open>failed\<close> status, no error message. With the record present the same failing run
  ends \<open>failed\<close>.
\<close>

theorem failed_run_without_record_stores_nothing:
  "analysis emptyStore = None
   \<and> analyzeWebsite siteWorld ''https://a.com/about'' emptyStore
       = (Inl (newError ''Website request timed out''), emptyStore)
   \<and> analyzeWebsitePages siteWorld [''https://a.com/about'', ''https://a.com/contact''] False emptyStore
       = (Inl (newError ''Failed to scrape any pages''), emptyStore)
   \<and> map_option rowStatus
        (analysis (snd (analyzeWebsitePages siteWorld
                          [''https://a.com/about'', ''https://a.com/contact''] False pendingStore)))
       = Some ''failed''"
proof -
  have e: "analysis emptyStore = None" by (simp add: emptyStore_def)
  have f: "\<forall>u \<in> set [''https://a.com/about'', ''https://a.com/contact''].
             \<exists>e. scrapeWebsite siteWorld u = Inl e"
    by (simp add: site_about_scrape site_contact_scrape)
  have 1: "analyzeWebsite siteWorld ''https://a.com/about'' emptyStore
       = (Inl (newError ''Website request timed out''), emptyStore)"
    by (simp add: analyzeWebsite_home_failure [OF site_about_scrape] update_status_no_row [OF e])
  have 2: "analyzeWebsitePages siteWorld [''https://a.com/about'', ''https://a.com/contact''] False
             emptyStore = (Inl (newError ''Failed to scrape any pages''), emptyStore)"
    by (simp add: analyzeWebsitePages_all_fail [OF f] update_status_no_row [OF e])
  have 3: "map_option rowStatus
        (analysis (snd (analyzeWebsitePages siteWorld
                          [''https://a.com/about'', ''https://a.com/contact''] False pendingStore)))
       = Some ''failed''"
    by (simp add: analyzeWebsitePages_all_fail [OF f] updateWebsiteAnalysisStatus_def
        pendingStore_def)
  from e 1 2 3 show ?thesis by blast
qed

end
